theory Spec2Isabelle
  imports Complex_Main
begin

section \<open>Industrial reconstruction: frame admission and integration controller\<close>

text \<open>
  A shallow embedding of \<^verbatim>\<open>industrial_reconstruction.py\<close>. The node's fields are a
  record, every callback is a function from the state to the new state, and the executor is
  an interleaving of whole callbacks. Python floats are represented by reals (rounding and
  NaN are outside the model), Python integers by \<open>int\<close>, a deque by a list whose head
  is its left end. Images, stamped transforms and camera intrinsics are opaque values.
  Log lines, published messages and written files are not part of the state; the calls
  made to the reconstruction engine are, as a log.
\<close>

subsection \<open>Vectors, quaternions and pose matrices\<close>

type_synonym vec3 = "real \<times> real \<times> real"
type_synonym quat = "real \<times> real \<times> real \<times> real"

fun vsub :: "vec3 \<Rightarrow> vec3 \<Rightarrow> vec3" where
  "vsub (a, b, c) (x, y, z) = (a - x, b - y, c - z)"

fun dot :: "vec3 \<Rightarrow> vec3 \<Rightarrow> real" where
  "dot (a, b, c) (x, y, z) = a * x + b * y + c * z"

text \<open>\<^verbatim>\<open>np.linalg.norm\<close> of a vector of three components.\<close>

fun norm3 :: "vec3 \<Rightarrow> real" where
  "norm3 (x, y, z) = sqrt (x * x + y * y + z * z)"

fun qsub :: "quat \<Rightarrow> quat \<Rightarrow> quat" where
  "qsub (a, b, c, d) (w, x, y, z) = (a - w, b - x, c - y, d - z)"

fun qadd :: "quat \<Rightarrow> quat \<Rightarrow> quat" where
  "qadd (a, b, c, d) (w, x, y, z) = (a + w, b + x, c + y, d + z)"

fun qnorm :: "quat \<Rightarrow> real" where
  "qnorm (w, x, y, z) = sqrt (w * w + x * x + y * y + z * z)"

text \<open>
  \<^verbatim>\<open>Quaternion.absolute_distance\<close> of pyquaternion: the smaller of the norms of the
  difference and of the sum of the two quaternions.
\<close>

definition absolute_distance :: "quat \<Rightarrow> quat \<Rightarrow> real" where
  "absolute_distance q0 q1 =
     (let d_minus = qnorm (qsub q0 q1); d_plus = qnorm (qadd q0 q1)
      in if d_minus < d_plus then d_minus else d_plus)"

text \<open>
  A pose matrix is kept symbolic: \<open>PoseMatrix r t\<close> is the transformation matrix of the
  quaternion \<open>r\<close> with its translation column overwritten by \<open>t\<close>, and \<open>Inv m\<close> is
  \<^verbatim>\<open>np.linalg.inv(m)\<close>.
\<close>

datatype mat4 = PoseMatrix quat vec3 | Inv mat4

subsection \<open>The reconstruction engine as a log of calls\<close>

text \<open>
  \<open>RGBDImage color depth depth_scale depth_trunc convert\<close> is the value of
  \<^verbatim>\<open>RGBDImage.create_from_color_and_depth\<close> on these arguments.
\<close>

datatype 'img rgbd = RGBDImage 'img 'img real real bool

datatype ('img, 'intr) call =
    Integrate "'img rgbd" "'intr option" mat4
  | ExtractPointCloud
  | ExtractTriangleMesh

record ('img, 'intr) volume =
  voxel_length :: real
  sdf_trunc :: real
  calls :: "('img, 'intr) call list"

record mesh =
  vertices :: "vec3 list"
  triangles :: "(nat \<times> nat \<times> nat) list"

text \<open>
  The primitives of Open3D that the node calls and whose results it does not compute
  itself: whether building the RGBD image and integrating it succeeds (the source catches
  the exception), mesh extraction, cropping, triangle normals and triangle clustering.
\<close>

record ('img, 'intr) o3d =
  integrate_ok :: "('img, 'intr) volume \<Rightarrow> ('img, 'intr) call \<Rightarrow> bool"
  extract_triangle_mesh :: "('img, 'intr) volume \<Rightarrow> mesh"
  crop :: "mesh \<Rightarrow> vec3 \<times> vec3 \<Rightarrow> mesh"
  triangle_normal :: "vec3 list \<Rightarrow> nat \<times> nat \<times> nat \<Rightarrow> vec3"
  cluster_connected_triangles :: "mesh \<Rightarrow> nat list \<times> nat list \<times> real list"

subsection \<open>Node state\<close>

datatype error = TypeError | EngineError | IndexError | MaskLengthError

record response =
  success :: bool
  message :: string

definition default_response :: response where
  "default_response = \<lparr>success = False, message = []\<rparr>"

record ('img, 'tf, 'intr) state =
  tsdf_volume :: "('img, 'intr) volume option"
  intrinsics :: "'intr option"
  crop_box :: "(vec3 \<times> vec3) option"
  crop_mesh :: bool
  tracking_frame :: string
  relative_frame :: string
  translation_distance :: real
  rotational_distance :: real
  depth_scale :: real
  depth_trunc :: real
  convert_rgb_to_intensity :: bool
  sensor_data :: "('img \<times> 'img \<times> 'tf) list"
  color_images :: "'img list"
  depth_images :: "'img list"
  rgb_poses :: "mat4 list"
  prev_pose_rot :: quat
  prev_pose_tran :: vec3
  tsdf_integration_data :: "('img \<times> 'img \<times> mat4) list"
  integration_done :: bool
  live_integration :: bool
  record_flag :: bool
  paused :: bool
  frame_count :: int
  processed_frame_count :: int
  reconstructed_frame_count :: int
  in_flight :: "('img \<times> 'img) list"

text \<open>
  The last field is not a field of the node. It holds the converted image pairs of the
  camera callbacks that have passed their guard and are blocked in
  \<^verbatim>\<open>lookup_transform\<close> (up to five seconds), while the callbacks of the other groups
  go on.
\<close>

text \<open>The fields as \<^verbatim>\<open>__init__\<close> sets them (\<open>record_flag\<close> is \<^verbatim>\<open>self.record\<close>).\<close>

definition init_state :: "('img, 'tf, 'intr) state" where
  "init_state =
     \<lparr>tsdf_volume = None, intrinsics = None, crop_box = None, crop_mesh = False,
      tracking_frame = [], relative_frame = [],
      translation_distance = 5 / 100, rotational_distance = 1 / 100,
      depth_scale = 1000, depth_trunc = 3, convert_rgb_to_intensity = False,
      sensor_data = [], color_images = [], depth_images = [], rgb_poses = [],
      prev_pose_rot = (1, 0, 0, 0), prev_pose_tran = (0, 0, 0),
      tsdf_integration_data = [], integration_done = True, live_integration = False,
      record_flag = False, paused = False,
      frame_count = 0, processed_frame_count = 0, reconstructed_frame_count = 0,
      in_flight = []\<rparr>"

subsection \<open>Start, pause and resume\<close>

text \<open>
  The request of \<^verbatim>\<open>StartReconstruction\<close>, with the nested parameter messages
  flattened.
\<close>

record start_request =
  req_voxel_length :: real
  req_sdf_trunc :: real
  req_min_box_values :: vec3
  req_max_box_values :: vec3
  req_depth_scale :: real
  req_depth_trunc :: real
  req_convert_rgb_to_intensity :: bool
  req_tracking_frame :: string
  req_relative_frame :: string
  req_translation_distance :: real
  req_rotational_distance :: real
  req_live :: bool

definition startReconstructionCallback ::
  "start_request \<Rightarrow> ('img, 'tf, 'intr) state \<Rightarrow> ('img, 'tf, 'intr) state \<times> response" where
  "startReconstructionCallback req s =
     (let s1 = s\<lparr>color_images := [], depth_images := [], rgb_poses := [],
                  sensor_data := [], tsdf_integration_data := [],
                  prev_pose_rot := (1, 0, 0, 0), prev_pose_tran := (0, 0, 0)\<rparr>;
          s2 = (if req_min_box_values req = req_max_box_values req
                then s1\<lparr>crop_mesh := False\<rparr>
                else s1\<lparr>crop_mesh := True,
                        crop_box := Some (req_min_box_values req, req_max_box_values req)\<rparr>)
      in (s2\<lparr>frame_count := 0, processed_frame_count := 0, reconstructed_frame_count := 0,
             tsdf_volume := Some \<lparr>voxel_length = req_voxel_length req,
                                   sdf_trunc = req_sdf_trunc req, calls = []\<rparr>,
             depth_scale := req_depth_scale req, depth_trunc := req_depth_trunc req,
             convert_rgb_to_intensity := req_convert_rgb_to_intensity req,
             tracking_frame := req_tracking_frame req,
             relative_frame := req_relative_frame req,
             translation_distance := req_translation_distance req,
             rotational_distance := req_rotational_distance req,
             live_integration := req_live req, record_flag := True, paused := False\<rparr>,
          default_response\<lparr>success := True\<rparr>))"

text \<open>
  \<^verbatim>\<open>pauseReconstructionCallback\<close>. With a recording active the source sets
  \<^verbatim>\<open>self.paused\<close> and then evaluates \<^verbatim>\<open>len(self.sensor_data > 0)\<close>: comparing a
  deque with an integer raises \<^verbatim>\<open>TypeError\<close>, so the callback leaves with the
  exception and the state already changed.
\<close>

definition pauseReconstructionCallback ::
  "('img, 'tf, 'intr) state \<Rightarrow> ('img, 'tf, 'intr) state \<times> (error + response)" where
  "pauseReconstructionCallback s =
     (if \<not> record_flag s
      then (s, Inr (default_response\<lparr>message :=
              ''Cannot pause reconstruction that was never started. Doing nothing'',
              success := False\<rparr>))
      else (s\<lparr>paused := True\<rparr>, Inl TypeError))"

definition resumeReconstructionCallback ::
  "('img, 'tf, 'intr) state \<Rightarrow> ('img, 'tf, 'intr) state \<times> response" where
  "resumeReconstructionCallback s =
     (if \<not> paused s
      then (s, default_response\<lparr>message :=
              ''Cannot resume reconstruction that was not initially paused. Doing nothing'',
              success := False\<rparr>)
      else (s\<lparr>paused := False\<rparr>,
            default_response\<lparr>success := True, message := ''Resuming reconstruction''\<rparr>))"

subsection \<open>Producer and consumer\<close>

text \<open>
  \<^verbatim>\<open>cameraCallback\<close>: \<open>decoded\<close> is the pair of converted images (depth, colour), or
  \<open>None\<close> when the bridge raises \<^verbatim>\<open>CvBridgeError\<close>; \<open>looked_up\<close> is the transform,
  or \<open>None\<close> when the lookup raises. The callback has two parts with the blocking
  lookup between them: \<open>camera_guard\<close> is the guard and the conversion, and gives the
  images with which the callback goes on to the lookup; \<open>camera_record\<close> is what
  follows the lookup. \<open>cameraCallback\<close> is a callback during whose lookup nothing
  else runs.
\<close>

definition camera_guard ::
  "('img \<times> 'img) option \<Rightarrow> ('img, 'tf, 'intr) state \<Rightarrow> ('img \<times> 'img) option" where
  "camera_guard decoded s = (if paused s \<or> \<not> record_flag s then None else decoded)"

definition camera_record ::
  "'img \<times> 'img \<Rightarrow> 'tf option \<Rightarrow> ('img, 'tf, 'intr) state \<Rightarrow> ('img, 'tf, 'intr) state" where
  "camera_record images looked_up s =
     (case looked_up of
        None \<Rightarrow> s
      | Some gm_tf_stamped \<Rightarrow>
          s\<lparr>sensor_data := sensor_data s @ [(fst images, snd images, gm_tf_stamped)],
            frame_count := frame_count s + 1\<rparr>)"

definition cameraCallback ::
  "('img \<times> 'img) option \<Rightarrow> 'tf option \<Rightarrow> ('img, 'tf, 'intr) state \<Rightarrow> ('img, 'tf, 'intr) state" where
  "cameraCallback decoded looked_up s =
     (case camera_guard decoded s of
        None \<Rightarrow> s
      | Some images \<Rightarrow> camera_record images looked_up s)"

definition cameraInfoCallback ::
  "'intr \<Rightarrow> ('img, 'tf, 'intr) state \<Rightarrow> ('img, 'tf, 'intr) state" where
  "cameraInfoCallback camera_info s = s\<lparr>intrinsics := Some camera_info\<rparr>"

text \<open>The test of the keyframe gate, as the source writes it.\<close>

definition gate :: "('img, 'tf, 'intr) state \<Rightarrow> vec3 \<Rightarrow> quat \<Rightarrow> bool" where
  "gate s rgb_t rgb_r =
     (let tran_dist = norm3 (vsub rgb_t (prev_pose_tran s));
          rot_dist = absolute_distance (prev_pose_rot s) rgb_r
      in tran_dist \<ge> translation_distance s \<or> rot_dist \<ge> rotational_distance s)"

text \<open>
  \<^verbatim>\<open>reconstructCallback\<close>, one tick of the 50 Hz timer. The first argument is the
  helper \<^verbatim>\<open>transformStampedToVectors\<close> (translation and rotation quaternion of a
  stamped transform), the second the engine.
\<close>

definition reconstructCallback ::
  "('tf \<Rightarrow> vec3 \<times> quat) \<Rightarrow> ('img, 'intr) o3d \<Rightarrow>
   ('img, 'tf, 'intr) state \<Rightarrow> ('img, 'tf, 'intr) state" where
  "reconstructCallback transformStampedToVectors eng s =
     (if frame_count s \<le> 30 \<or> sensor_data s = [] then s
      else
        let (depth_img, rgb_img, gm_tf_stamped) = hd (sensor_data s);
            s1 = s\<lparr>sensor_data := tl (sensor_data s)\<rparr>;
            (rgb_t, rgb_r) = transformStampedToVectors gm_tf_stamped
        in if gate s rgb_t rgb_r then
             let rgb_pose = PoseMatrix rgb_r rgb_t;
                 s2 = s1\<lparr>prev_pose_tran := rgb_t, prev_pose_rot := rgb_r,
                         depth_images := depth_images s @ [depth_img],
                         color_images := color_images s @ [rgb_img],
                         rgb_poses := rgb_poses s @ [rgb_pose]\<rparr>
             in (case (if live_integration s then tsdf_volume s else None) of
                   Some vol \<Rightarrow>
                     let c = Integrate
                               (RGBDImage rgb_img depth_img (depth_scale s) (depth_trunc s) False)
                               (intrinsics s) (Inv rgb_pose)
                     in if integrate_ok eng vol c then
                          let n = processed_frame_count s + 1;
                              log = calls vol @ [c] @
                                (if n mod 50 = 0 \<and> record_flag s then [ExtractPointCloud] else [])
                          in s2\<lparr>tsdf_volume := Some (vol\<lparr>calls := log\<rparr>),
                                integration_done := True, processed_frame_count := n\<rparr>
                        else s2\<lparr>integration_done := True\<rparr>
                 | None \<Rightarrow>
                     s2\<lparr>tsdf_integration_data :=
                          tsdf_integration_data s @ [(depth_img, rgb_img, rgb_pose)],
                        processed_frame_count := processed_frame_count s + 1\<rparr>)
           else s1)"

subsection \<open>Mesh post-processing\<close>

text \<open>
  \<^verbatim>\<open>remove_triangles_by_mask\<close> of Open3D: a triangle goes when its mask entry is
  true; a mask of the wrong length is an error.
\<close>

definition remove_triangles_by_mask :: "mesh \<Rightarrow> bool list \<Rightarrow> error + mesh" where
  "remove_triangles_by_mask m triangle_mask =
     (if length triangle_mask \<noteq> length (triangles m) then Inl MaskLengthError
      else Inr (m\<lparr>triangles :=
                   map fst (filter (\<lambda>(t, b). \<not> b) (zip (triangles m) triangle_mask))\<rparr>))"

definition filterNormals ::
  "('img, 'intr) o3d \<Rightarrow> mesh \<Rightarrow> vec3 \<Rightarrow> real \<Rightarrow> error + mesh" where
  "filterNormals eng m direction angle =
     (let tri_normals = map (triangle_normal eng (vertices m)) (triangles m);
          dot_prods = map (\<lambda>n. dot n direction) tri_normals
      in remove_triangles_by_mask m (map (\<lambda>d. d < cos angle) dot_prods))"

record normal_filter =
  normal_direction :: vec3
  filter_angle :: real

text \<open>\<^verbatim>\<open>np.radians\<close>.\<close>

definition radians :: "real \<Rightarrow> real" where
  "radians a = a * pi / 180"

text \<open>The loop over \<^verbatim>\<open>req.normal_filters\<close>, in request order.\<close>

fun apply_normal_filters ::
  "('img, 'intr) o3d \<Rightarrow> normal_filter list \<Rightarrow> mesh \<Rightarrow> error + mesh" where
  "apply_normal_filters eng [] m = Inr m"
| "apply_normal_filters eng (norm_filt # fs) m =
     (case filterNormals eng m (normal_direction norm_filt) (radians (filter_angle norm_filt)) of
        Inl e \<Rightarrow> Inl e
      | Inr m' \<Rightarrow> apply_normal_filters eng fs m')"

text \<open>
  \<^verbatim>\<open>remove_unreferenced_vertices\<close> of Open3D: the vertices that some triangle refers to
  are kept in their order, and the triangles are renumbered.
\<close>

definition referenced :: "mesh \<Rightarrow> nat \<Rightarrow> bool" where
  "referenced m i = (\<exists>(a, b, c) \<in> set (triangles m). i = a \<or> i = b \<or> i = c)"

definition index_old_to_new :: "mesh \<Rightarrow> nat \<Rightarrow> nat" where
  "index_old_to_new m i = length (filter (referenced m) [0..<i])"

definition remove_unreferenced_vertices :: "mesh \<Rightarrow> mesh" where
  "remove_unreferenced_vertices m =
     \<lparr>vertices = map (\<lambda>i. vertices m ! i) (filter (referenced m) [0..<length (vertices m)]),
      triangles = map (\<lambda>(a, b, c). (index_old_to_new m a, index_old_to_new m b,
                                      index_old_to_new m c)) (triangles m)\<rparr>"

text \<open>
  The connected-component step of \<^verbatim>\<open>stopReconstructionCallback\<close>: the mask is
  \<^verbatim>\<open>cluster_n_triangles[triangle_clusters] < req.min_num_faces\<close>; an index outside
  \<^verbatim>\<open>cluster_n_triangles\<close> raises.
\<close>

definition remove_small_clusters ::
  "('img, 'intr) o3d \<Rightarrow> int \<Rightarrow> mesh \<Rightarrow> error + mesh" where
  "remove_small_clusters eng min_num_faces m =
     (let (triangle_clusters, cluster_n_triangles, cluster_area) =
            cluster_connected_triangles eng m
      in if \<exists>c \<in> set triangle_clusters. c \<ge> length cluster_n_triangles then Inl IndexError
         else
           let triangles_to_remove =
                 map (\<lambda>c. int (cluster_n_triangles ! c) < min_num_faces) triangle_clusters
           in (case remove_triangles_by_mask m triangles_to_remove of
                 Inl e \<Rightarrow> Inl e
               | Inr m' \<Rightarrow> Inr (remove_unreferenced_vertices m')))"

subsection \<open>Stop\<close>

record stop_request =
  mesh_filepath :: string
  normal_filters :: "normal_filter list"
  min_num_faces :: int
  archive_directory :: string

text \<open>
  \<^verbatim>\<open>join("/".join(req.mesh_filepath.split("/")[:-1]), "integrated_point_cloud.ply")\<close>.
\<close>

definition point_cloud_filepath :: "string \<Rightarrow> string" where
  "point_cloud_filepath p =
     (let d = rev (drop 1 (dropWhile (\<lambda>c. c \<noteq> CHR ''/'') (rev p)))
      in if d = [] then ''integrated_point_cloud.ply''
         else if last d = CHR ''/'' then d @ ''integrated_point_cloud.ply''
         else d @ ''/integrated_point_cloud.ply'')"

text \<open>
  The draining loop of the deferred buffer: each triple \<open>(depth, color, pose)\<close> is popped
  from the left and integrated with the inverse of its pose. The result is the buffer that
  is left, the engine, and whether every integration succeeded (an exception of the engine
  is not caught here and ends the loop after the pop).
\<close>

fun integrate_deferred ::
  "('img, 'intr) o3d \<Rightarrow> real \<Rightarrow> real \<Rightarrow> 'intr option \<Rightarrow> ('img \<times> 'img \<times> mat4) list \<Rightarrow>
   ('img, 'intr) volume \<Rightarrow> ('img \<times> 'img \<times> mat4) list \<times> ('img, 'intr) volume \<times> bool" where
  "integrate_deferred eng scale trunc intr [] vol = ([], vol, True)"
| "integrate_deferred eng scale trunc intr ((depth_img, rgb_img, pose) # rest) vol =
     (let c = Integrate (RGBDImage rgb_img depth_img scale trunc False) intr (Inv pose)
      in if integrate_ok eng vol c
         then integrate_deferred eng scale trunc intr rest (vol\<lparr>calls := calls vol @ [c]\<rparr>)
         else (rest, vol, False))"

text \<open>
  The mesh pipeline of \<^verbatim>\<open>stopReconstructionCallback\<close>: crop when a crop box was set
  at Start, the normal filters in request order, the connected-component step.
\<close>

definition post_process ::
  "('img, 'intr) o3d \<Rightarrow> stop_request \<Rightarrow> ('img, 'tf, 'intr) state \<Rightarrow> mesh \<Rightarrow> error + mesh" where
  "post_process eng req s mesh =
     (case (if crop_mesh s
            then (case crop_box s of None \<Rightarrow> Inl TypeError
                  | Some b \<Rightarrow> Inr (crop eng mesh b))
            else Inr mesh) of
        Inl e \<Rightarrow> Inl e
      | Inr cropped_mesh \<Rightarrow>
          (case apply_normal_filters eng (normal_filters req) cropped_mesh of
             Inl e \<Rightarrow> Inl e
           | Inr filtered \<Rightarrow> remove_small_clusters eng (min_num_faces req) filtered))"

text \<open>
  What \<^verbatim>\<open>stopReconstructionCallback\<close> does once its wait is over. The result is the
  response together with the mesh written to \<^verbatim>\<open>req.mesh_filepath\<close>, or the exception
  that ends the callback.
\<close>

definition stop_export ::
  "('img, 'intr) o3d \<Rightarrow> stop_request \<Rightarrow> ('img, 'tf, 'intr) state \<Rightarrow>
   ('img, 'tf, 'intr) state \<times> (error + response \<times> mesh option)" where
  "stop_export eng req s =
     (case tsdf_volume s of
        None \<Rightarrow>
          (s, Inr (default_response\<lparr>success := False,
                     message := ''Start reconstruction hasn't been called yet''\<rparr>, None))
      | Some vol \<Rightarrow>
          let (rest, vol1, ok) =
                (if \<not> live_integration s
                 then integrate_deferred eng (depth_scale s) (depth_trunc s) (intrinsics s)
                        (tsdf_integration_data s) vol
                 else (tsdf_integration_data s, vol, True));
              s1 = s\<lparr>tsdf_integration_data := rest\<rparr>
          in if \<not> ok then (s1\<lparr>tsdf_volume := Some vol1\<rparr>, Inl EngineError)
             else
               (case post_process eng req s (extract_triangle_mesh eng vol1) of
                  Inl e \<Rightarrow>
                    (s1\<lparr>tsdf_volume :=
                          Some (vol1\<lparr>calls := calls vol1 @ [ExtractTriangleMesh]\<rparr>)\<rparr>,
                     Inl e)
                | Inr final \<Rightarrow>
                    (s1\<lparr>tsdf_volume :=
                          Some (vol1\<lparr>calls := calls vol1 @
                                  [ExtractTriangleMesh, ExtractPointCloud]\<rparr>)\<rparr>,
                     Inr (default_response\<lparr>success := True,
                            message := ''Mesh Saved to '' @ mesh_filepath req @
                              '' and point cloud saved to '' @
                              point_cloud_filepath (mesh_filepath req)\<rparr>,
                          Some final))))"

subsection \<open>The executor\<close>

text \<open>
  The node runs under \<^verbatim>\<open>MultiThreadedExecutor(3)\<close>. The four services share one
  mutually exclusive callback group and the timer has a group of its own; the
  subscriptions are in the default group of the node. So while a service runs or a camera
  callback waits for its transform, callbacks of the other groups go on. What runs beside
  the services: a whole camera callback, the first part of a camera callback (which then
  waits for its transform), the second part of the \<open>k\<close>-th waiting camera callback, the
  timer and the camera info subscription. The model lets any number of camera callbacks
  wait at once and lets the camera info subscription run meanwhile; the default group
  allows one callback at a time, so every run of the node is a run of the model.
\<close>

datatype ('img, 'tf, 'intr) env_event =
    Camera "('img \<times> 'img) option" "'tf option"
  | CameraArrive "('img \<times> 'img) option"
  | CameraComplete nat "'tf option"
  | Timer
  | CameraInfo 'intr

fun env_step ::
  "('tf \<Rightarrow> vec3 \<times> quat) \<Rightarrow> ('img, 'intr) o3d \<Rightarrow> ('img, 'tf, 'intr) env_event \<Rightarrow>
   ('img, 'tf, 'intr) state \<Rightarrow> ('img, 'tf, 'intr) state" where
  "env_step tfv eng (Camera decoded looked_up) s = cameraCallback decoded looked_up s"
| "env_step tfv eng (CameraArrive decoded) s =
     (case camera_guard decoded s of
        None \<Rightarrow> s
      | Some images \<Rightarrow> s\<lparr>in_flight := in_flight s @ [images]\<rparr>)"
| "env_step tfv eng (CameraComplete k looked_up) s =
     (if k < length (in_flight s)
      then camera_record (in_flight s ! k) looked_up
             (s\<lparr>in_flight := take k (in_flight s) @ drop (Suc k) (in_flight s)\<rparr>)
      else s)"
| "env_step tfv eng Timer s = reconstructCallback tfv eng s"
| "env_step tfv eng (CameraInfo ci) s = cameraInfoCallback ci s"

text \<open>
  The wait of \<^verbatim>\<open>stopReconstructionCallback\<close>:
  \<^verbatim>\<open>while not (self.integration_done and len(self.sensor_data) == 0): sleep\<close>. The four
  services share one mutually exclusive callback group, so no other service runs while
  Stop sleeps; \<open>sched\<close> lists what does run, one event between two polls.
  \<open>None\<close> says that the loop is still waiting when the schedule is used up.
\<close>

fun stop_wait ::
  "('tf \<Rightarrow> vec3 \<times> quat) \<Rightarrow> ('img, 'intr) o3d \<Rightarrow> ('img, 'tf, 'intr) env_event list \<Rightarrow>
   ('img, 'tf, 'intr) state \<Rightarrow> ('img, 'tf, 'intr) state option" where
  "stop_wait tfv eng [] s =
     (if integration_done s \<and> sensor_data s = [] then Some s else None)"
| "stop_wait tfv eng (e # es) s =
     (if integration_done s \<and> sensor_data s = [] then Some s
      else stop_wait tfv eng es (env_step tfv eng e s))"

text \<open>
  \<^verbatim>\<open>stopReconstructionCallback\<close>: the recording flag is cleared, the wait runs with
  the schedule \<open>sched\<close>, then the buffer is drained and the mesh exported. \<open>during\<close>
  lists what runs while the engine and the file system work on the export; the state at
  the return has seen it. The export itself is one step, and what \<open>during\<close> lists takes
  effect after it: a camera info message that arrives while the buffer is drained reaches
  the state of the model only after the drain.
\<close>

definition stopReconstructionCallback ::
  "('tf \<Rightarrow> vec3 \<times> quat) \<Rightarrow> ('img, 'intr) o3d \<Rightarrow> stop_request \<Rightarrow>
   ('img, 'tf, 'intr) env_event list \<Rightarrow> ('img, 'tf, 'intr) env_event list \<Rightarrow>
   ('img, 'tf, 'intr) state \<Rightarrow>
   (('img, 'tf, 'intr) state \<times> (error + response \<times> mesh option)) option" where
  "stopReconstructionCallback tfv eng req sched during s =
     (case stop_wait tfv eng sched (s\<lparr>record_flag := False\<rparr>) of
        None \<Rightarrow> None
      | Some s1 \<Rightarrow>
          Some (fold (env_step tfv eng) during (fst (stop_export eng req s1)),
                snd (stop_export eng req s1)))"

datatype ('img, 'tf, 'intr) event =
    Env "('img, 'tf, 'intr) env_event"
  | Start start_request
  | Pause
  | Resume
  | Stop stop_request "('img, 'tf, 'intr) env_event list" "('img, 'tf, 'intr) env_event list"

fun step ::
  "('tf \<Rightarrow> vec3 \<times> quat) \<Rightarrow> ('img, 'intr) o3d \<Rightarrow> ('img, 'tf, 'intr) event \<Rightarrow>
   ('img, 'tf, 'intr) state \<Rightarrow> ('img, 'tf, 'intr) state option" where
  "step tfv eng (Env e) s = Some (env_step tfv eng e s)"
| "step tfv eng (Start req) s = Some (fst (startReconstructionCallback req s))"
| "step tfv eng Pause s = Some (fst (pauseReconstructionCallback s))"
| "step tfv eng Resume s = Some (fst (resumeReconstructionCallback s))"
| "step tfv eng (Stop req sched during) s =
     map_option fst (stopReconstructionCallback tfv eng req sched during s)"

text \<open>
  A run of the node: the events in the order the executor serves them. A Stop whose wait
  does not end blocks every later service, and the run is \<open>None\<close>.
\<close>

fun run ::
  "('tf \<Rightarrow> vec3 \<times> quat) \<Rightarrow> ('img, 'intr) o3d \<Rightarrow> ('img, 'tf, 'intr) event list \<Rightarrow>
   ('img, 'tf, 'intr) state \<Rightarrow> ('img, 'tf, 'intr) state option" where
  "run tfv eng [] s = Some s"
| "run tfv eng (e # es) s =
     (case step tfv eng e s of None \<Rightarrow> None | Some s' \<Rightarrow> run tfv eng es s')"

subsection \<open>A concrete session\<close>

text \<open>
  Images are numbers, a stamped transform is the pair of its translation and rotation, and
  the engine integrates when the camera intrinsics are known and raises when they are not.
  \<open>started\<close> is the node after its first Start; \<open>feed tf n\<close>
  is the arrival of \<open>n\<close> synchronised frames with the same pose: \<open>far_tf\<close> lies one unit
  along the x axis, \<open>near_tf\<close> is the identity pose.
\<close>

definition id_tf :: "vec3 \<times> quat \<Rightarrow> vec3 \<times> quat" where
  "id_tf p = p"

definition test_engine :: "(nat, unit) o3d" where
  "test_engine =
     \<lparr>integrate_ok =
        (\<lambda>vol c. case c of Integrate im intr m \<Rightarrow> intr \<noteq> None | _ \<Rightarrow> True),
      extract_triangle_mesh = (\<lambda>vol. \<lparr>vertices = [], triangles = []\<rparr>),
      crop = (\<lambda>m b. m),
      triangle_normal = (\<lambda>vs t. (0, 0, 1)),
      cluster_connected_triangles = (\<lambda>m. ([], [], []))\<rparr>"

definition test_start :: start_request where
  "test_start =
     \<lparr>req_voxel_length = 1 / 100, req_sdf_trunc = 4 / 100,
      req_min_box_values = (0, 0, 0), req_max_box_values = (0, 0, 0),
      req_depth_scale = 1000, req_depth_trunc = 3, req_convert_rgb_to_intensity = False,
      req_tracking_frame = ''camera'', req_relative_frame = ''world'',
      req_translation_distance = 1, req_rotational_distance = 1,
      req_live = False\<rparr>"

definition test_stop :: stop_request where
  "test_stop =
     \<lparr>mesh_filepath = ''/tmp/out/mesh.ply'', normal_filters = [],
      min_num_faces = 0, archive_directory = []\<rparr>"

definition started :: "(nat, vec3 \<times> quat, unit) state" where
  "started = fst (startReconstructionCallback test_start init_state)"

definition far_tf :: "vec3 \<times> quat" where
  "far_tf = ((1, 0, 0), (1, 0, 0, 0))"

definition near_tf :: "vec3 \<times> quat" where
  "near_tf = ((0, 0, 0), (1, 0, 0, 0))"

definition feed ::
  "vec3 \<times> quat \<Rightarrow> nat \<Rightarrow> (nat, vec3 \<times> quat, unit) state \<Rightarrow>
   (nat, vec3 \<times> quat, unit) state" where
  "feed tf n s = (cameraCallback (Some (0, 0)) (Some tf) ^^ n) s"

text \<open>
  A whole session: Start, the camera info, a frame one unit away, a frame at the identity
  pose and 29 more frames there. \<open>queued\<close> is the node after these events. The Stop
  that follows has 31 ticks in its wait: the first two admit a frame each, the others
  reject; \<open>drained_state\<close> is the node when the wait ends, \<open>final_state\<close> and
  \<open>final_output\<close> are what Stop leaves and returns.
\<close>

definition session_events :: "(nat, vec3 \<times> quat, unit) event list" where
  "session_events =
     [Start test_start, Env (CameraInfo ()), Env (Camera (Some (1, 2)) (Some far_tf)),
      Env (Camera (Some (3, 4)) (Some near_tf))] @
     replicate 29 (Env (Camera (Some (5, 6)) (Some near_tf)))"

definition queued :: "(nat, vec3 \<times> quat, unit) state" where
  "queued =
     started\<lparr>intrinsics := Some (),
       sensor_data := (1, 2, far_tf) # (3, 4, near_tf) # replicate 29 (5, 6, near_tf),
       frame_count := 31\<rparr>"

definition two_admitted :: "(nat, vec3 \<times> quat, unit) state" where
  "two_admitted =
     reconstructCallback id_tf test_engine
       (reconstructCallback id_tf test_engine (queued\<lparr>record_flag := False\<rparr>))"

definition drained_state :: "(nat, vec3 \<times> quat, unit) state" where
  "drained_state = two_admitted\<lparr>sensor_data := []\<rparr>"

definition far_call :: "(nat, unit) call" where
  "far_call =
     Integrate (RGBDImage 2 1 1000 3 False) (Some ()) (Inv (PoseMatrix (1, 0, 0, 0) (1, 0, 0)))"

definition near_call :: "(nat, unit) call" where
  "near_call =
     Integrate (RGBDImage 4 3 1000 3 False) (Some ()) (Inv (PoseMatrix (1, 0, 0, 0) (0, 0, 0)))"

definition final_volume :: "(nat, unit) volume" where
  "final_volume =
     \<lparr>voxel_length = 1 / 100, sdf_trunc = 4 / 100,
      calls = [far_call, near_call, ExtractTriangleMesh, ExtractPointCloud]\<rparr>"

definition final_state :: "(nat, vec3 \<times> quat, unit) state" where
  "final_state = drained_state\<lparr>tsdf_integration_data := [], tsdf_volume := Some final_volume\<rparr>"

definition final_output :: "response \<times> mesh option" where
  "final_output =
     (\<lparr>success = True,
       message = ''Mesh Saved to /tmp/out/mesh.ply and point cloud saved to /tmp/out/integrated_point_cloud.ply''\<rparr>,
      Some \<lparr>vertices = [], triangles = []\<rparr>)"

subsection \<open>An invariant of the node\<close>

text \<open>
  In live mode the deferred buffer is empty and the engine exists; the counter
  \<^verbatim>\<open>reconstructed_frame_count\<close> is zero, since no callback ever adds to it.
\<close>

definition session_inv :: "('img, 'tf, 'intr) state \<Rightarrow> bool" where
  "session_inv s =
     ((if live_integration s then tsdf_integration_data s = [] \<and> tsdf_volume s \<noteq> None
       else True) \<and>
      reconstructed_frame_count s = 0)"

subsection \<open>Meshes for the post-processing\<close>

text \<open>
  The corner points of a triangle, and the meshes whose triangles refer to vertices that
  exist.
\<close>

definition triangle_points :: "mesh \<Rightarrow> nat \<times> nat \<times> nat \<Rightarrow> vec3 \<times> vec3 \<times> vec3" where
  "triangle_points m t =
     (vertices m ! fst t, vertices m ! fst (snd t), vertices m ! snd (snd t))"

definition in_range :: "mesh \<Rightarrow> bool" where
  "in_range m =
     list_all (\<lambda>t. fst t < length (vertices m) \<and> fst (snd t) < length (vertices m) \<and>
                    snd (snd t) < length (vertices m)) (triangles m)"

text \<open>
  Three triangles with three different normals, for the normal filters; two strips of 5 and
  of 50 triangles on separate vertices, with the clustering that labels them 0 and 1, for
  the connected-component step.
\<close>

definition side_normal :: "vec3 list \<Rightarrow> nat \<times> nat \<times> nat \<Rightarrow> vec3" where
  "side_normal vs t =
     (if fst t = 0 then (0, 0, 1) else if fst t = 1 then (1, 0, 0) else (0, 1, 0))"

definition normal_engine :: "(nat, unit) o3d" where
  "normal_engine = test_engine\<lparr>triangle_normal := side_normal\<rparr>"

definition corner :: mesh where
  "corner =
     \<lparr>vertices = [(0, 0, 0), (1, 0, 0), (0, 1, 0), (0, 0, 1)],
      triangles = [(0, 1, 2), (1, 2, 3), (2, 3, 0)]\<rparr>"

definition strip :: "nat \<Rightarrow> nat \<times> nat \<times> nat" where
  "strip i = (i, i + 1, i + 2)"

definition two_strips :: mesh where
  "two_strips =
     \<lparr>vertices = map (\<lambda>i. (real i, 0, 0)) [0..<59],
      triangles = map strip [0..<5] @ map strip [7..<57]\<rparr>"

definition strip_engine :: "(nat, unit) o3d" where
  "strip_engine =
     test_engine\<lparr>cluster_connected_triangles :=
       (\<lambda>m. (replicate 5 0 @ replicate 50 1, [5, 50], [0, 0]))\<rparr>"

section \<open>Properties\<close>

subsection \<open>The concrete session\<close>

lemma cameraCallback_eq:
  "cameraCallback decoded looked_up s =
     (if paused s \<or> \<not> record_flag s then s
      else case decoded of
        None \<Rightarrow> s
      | Some (cv2_depth_img, cv2_rgb_img) \<Rightarrow>
          (case looked_up of
             None \<Rightarrow> s
           | Some gm_tf_stamped \<Rightarrow>
               s\<lparr>sensor_data := sensor_data s @ [(cv2_depth_img, cv2_rgb_img, gm_tf_stamped)],
                 frame_count := frame_count s + 1\<rparr>))"
  by (simp add: cameraCallback_def camera_guard_def camera_record_def
      split: option.splits prod.splits)

lemma frames_recording:
  "record_flag s \<Longrightarrow> \<not> paused s \<Longrightarrow>
   (cameraCallback (Some (d, c)) (Some tf) ^^ n) s =
     s\<lparr>sensor_data := sensor_data s @ replicate n (d, c, tf),
       frame_count := frame_count s + int n\<rparr>"
proof (induction n)
  case 0
  then show ?case by simp
next
  case (Suc n)
  then show ?case
    by (simp add: cameraCallback_eq replicate_append_same)
qed

lemma feed_recording:
  "record_flag s \<Longrightarrow> \<not> paused s \<Longrightarrow>
   feed tf n s = s\<lparr>sensor_data := sensor_data s @ replicate n (0, 0, tf),
                frame_count := frame_count s + int n\<rparr>"
  by (simp add: feed_def frames_recording)

lemma started_fields:
  "record_flag started" "\<not> paused started" "sensor_data started = []"
  "frame_count started = 0"
  "translation_distance started = 1" "rotational_distance started = 1"
  "prev_pose_tran started = (0, 0, 0)" "prev_pose_rot started = (1, 0, 0, 0)"
  "\<not> live_integration started" "tsdf_integration_data started = []"
  "rgb_poses started = []" "processed_frame_count started = 0"
  "reconstructed_frame_count started = 0" "integration_done started"
  "in_flight started = []" "depth_images started = []" "color_images started = []"
  "tsdf_volume started = Some \<lparr>voxel_length = 1 / 100, sdf_trunc = 4 / 100, calls = []\<rparr>"
  "depth_scale started = 1000" "depth_trunc started = 3" "intrinsics started = None"
  "\<not> crop_mesh started"
  by (simp_all add: started_def startReconstructionCallback_def test_start_def
        init_state_def Let_def)

subsection \<open>Pause\<close>

lemma pause_inactive:
  "\<not> record_flag s \<Longrightarrow>
   pauseReconstructionCallback s =
     (s, Inr \<lparr>success = False,
              message = ''Cannot pause reconstruction that was never started. Doing nothing''\<rparr>)"
  by (simp add: pauseReconstructionCallback_def default_response_def)

text \<open>
  C2. Pause is refused without a state change when no recording is active, and with a
  recording active it should set \<open>paused\<close> and answer with success. The source does the
  first and sets \<open>paused\<close>, but it answers nothing: after a Start, Pause ends with
  \<^verbatim>\<open>TypeError\<close> and there is no response whose success could be true.
\<close>

theorem pause_while_recording_raises:
  "record_flag started \<and>
   pauseReconstructionCallback started = (started\<lparr>paused := True\<rparr>, Inl TypeError)"
  by (simp add: started_fields pauseReconstructionCallback_def)

subsection \<open>Warm-up and popping\<close>

lemma consumer_tick_pops:
  "30 < frame_count s \<Longrightarrow> sensor_data s \<noteq> [] \<Longrightarrow>
   sensor_data (reconstructCallback tfv eng s) = tl (sensor_data s)"
  by (simp add: reconstructCallback_def Let_def split: prod.splits option.splits)

text \<open>
  C5, as the claim states it, fails when exactly 30 frames have been seen: the queue holds
  30 frames and the tick pops none of them.
\<close>

theorem warmup_counterexample:
  "30 \<le> frame_count (feed far_tf 30 started) \<and>
   sensor_data (feed far_tf 30 started) \<noteq> [] \<and>
   reconstructCallback id_tf test_engine (feed far_tf 30 started) = feed far_tf 30 started"
  by (simp add: feed_recording started_fields reconstructCallback_def)

text \<open>
  C5, amended. The tick changes nothing while at most 30 frames have been seen or the queue
  is empty; once more than 30 frames have been seen and the queue is not empty, a tick pops
  exactly the frame at the head of the queue.
\<close>

theorem consumer_tick_warmup:
  "(frame_count s \<le> 30 \<or> sensor_data s = [] \<longrightarrow> reconstructCallback tfv eng s = s) \<and>
   (30 < frame_count s \<and> sensor_data s \<noteq> [] \<longrightarrow>
      sensor_data (reconstructCallback tfv eng s) = tl (sensor_data s))"
  by (simp add: reconstructCallback_def Let_def split: prod.splits option.splits)

theorem consumer_tick_warmup_witness:
  "30 < frame_count (feed far_tf 31 started) \<and>
   sensor_data (feed far_tf 31 started) \<noteq> [] \<and>
   sensor_data (reconstructCallback id_tf test_engine (feed far_tf 31 started)) =
     replicate 30 (0, 0, far_tf)"
  using consumer_tick_warmup [of "feed far_tf 31 started" id_tf test_engine]
  by (simp add: feed_recording started_fields)

subsection \<open>The tick and the keyframe gate\<close>

lemma tick_keeps:
  "frame_count (reconstructCallback tfv eng s) = frame_count s"
  "record_flag (reconstructCallback tfv eng s) = record_flag s"
  "paused (reconstructCallback tfv eng s) = paused s"
  "live_integration (reconstructCallback tfv eng s) = live_integration s"
  "reconstructed_frame_count (reconstructCallback tfv eng s) = reconstructed_frame_count s"
  "translation_distance (reconstructCallback tfv eng s) = translation_distance s"
  "rotational_distance (reconstructCallback tfv eng s) = rotational_distance s"
  "in_flight (reconstructCallback tfv eng s) = in_flight s"
  "depth_scale (reconstructCallback tfv eng s) = depth_scale s"
  "depth_trunc (reconstructCallback tfv eng s) = depth_trunc s"
  "intrinsics (reconstructCallback tfv eng s) = intrinsics s"
  by (simp_all add: reconstructCallback_def Let_def split: prod.splits option.splits)

lemma tick_done:
  "integration_done s \<Longrightarrow> integration_done (reconstructCallback tfv eng s)"
  by (simp add: reconstructCallback_def Let_def split: prod.splits option.splits)

lemma camera_idle:
  "paused s \<or> \<not> record_flag s \<Longrightarrow> cameraCallback dec lk s = s"
  by (auto simp add: cameraCallback_eq)

lemma env_keeps:
  "e \<noteq> Timer \<Longrightarrow> prev_pose_rot (env_step tfv eng e s) = prev_pose_rot s"
  "e \<noteq> Timer \<Longrightarrow> prev_pose_tran (env_step tfv eng e s) = prev_pose_tran s"
  "e \<noteq> Timer \<Longrightarrow> rgb_poses (env_step tfv eng e s) = rgb_poses s"
  "e \<noteq> Timer \<Longrightarrow> tsdf_volume (env_step tfv eng e s) = tsdf_volume s"
  "e \<noteq> Timer \<Longrightarrow> tsdf_integration_data (env_step tfv eng e s) = tsdf_integration_data s"
  "e \<noteq> Timer \<Longrightarrow> live_integration (env_step tfv eng e s) = live_integration s"
  "e \<noteq> Timer \<Longrightarrow>
     reconstructed_frame_count (env_step tfv eng e s) = reconstructed_frame_count s"
  "e \<noteq> Timer \<Longrightarrow> processed_frame_count (env_step tfv eng e s) = processed_frame_count s"
  "e \<noteq> Timer \<Longrightarrow> depth_scale (env_step tfv eng e s) = depth_scale s"
  "e \<noteq> Timer \<Longrightarrow> depth_trunc (env_step tfv eng e s) = depth_trunc s"
  "e \<noteq> Timer \<Longrightarrow> record_flag (env_step tfv eng e s) = record_flag s"
  "e \<noteq> Timer \<Longrightarrow> paused (env_step tfv eng e s) = paused s"
  "e \<noteq> Timer \<Longrightarrow> integration_done (env_step tfv eng e s) = integration_done s"
  by (cases e; simp add: cameraCallback_eq camera_guard_def camera_record_def
        cameraInfoCallback_def split: option.splits prod.splits)+

lemma env_step_flags:
  "record_flag (env_step tfv eng e s) = record_flag s"
  "paused (env_step tfv eng e s) = paused s"
  "live_integration (env_step tfv eng e s) = live_integration s"
  "reconstructed_frame_count (env_step tfv eng e s) = reconstructed_frame_count s"
  "depth_scale (env_step tfv eng e s) = depth_scale s"
  "depth_trunc (env_step tfv eng e s) = depth_trunc s"
  by (cases "e = Timer"; simp add: tick_keeps env_keeps)+

lemma env_step_done:
  "integration_done s \<Longrightarrow> integration_done (env_step tfv eng e s)"
  by (cases "e = Timer") (simp_all add: tick_done env_keeps)

lemma fold_env_invariant:
  assumes "\<And>x e. P x \<Longrightarrow> P (env_step tfv eng e x)"
  shows "P s \<Longrightarrow> P (fold (env_step tfv eng) evs s)"
proof (induction evs arbitrary: s)
  case Nil
  then show ?case by simp
next
  case (Cons e evs)
  have "P (env_step tfv eng e s)" using Cons.prems by (rule assms)
  then show ?case using Cons.IH by simp
qed

lemma tick_accept:
  assumes "30 < frame_count s" and "sensor_data s = (d, c, tf) # rest" and "tfv tf = (t, r)"
    and "gate s t r"
  shows "prev_pose_tran (reconstructCallback tfv eng s) = t \<and>
         prev_pose_rot (reconstructCallback tfv eng s) = r \<and>
         rgb_poses (reconstructCallback tfv eng s) = rgb_poses s @ [PoseMatrix r t] \<and>
         depth_images (reconstructCallback tfv eng s) = depth_images s @ [d] \<and>
         color_images (reconstructCallback tfv eng s) = color_images s @ [c]"
  using assms
  by (simp add: reconstructCallback_def Let_def split: prod.splits option.splits)

lemma tick_reject:
  assumes "30 < frame_count s" and "sensor_data s = (d, c, tf) # rest" and "tfv tf = (t, r)"
    and "\<not> gate s t r"
  shows "reconstructCallback tfv eng s = s\<lparr>sensor_data := rest\<rparr>"
  using assms
  by (simp add: reconstructCallback_def Let_def split: prod.splits option.splits)

text \<open>
  C3. A popped frame is admitted exactly when its translation is at least the translation
  threshold away from the previous accepted translation (Euclidean norm of the difference)
  or its rotation is at least the rotation threshold away from the previous accepted
  rotation (quaternion distance). A translation distance equal to the threshold admits the
  frame; a frame below both thresholds is only popped.
\<close>

theorem keyframe_gate_inclusive:
  assumes "30 < frame_count s" and "sensor_data s = (d, c, tf) # rest" and "tfv tf = (t, r)"
  shows
    "((rgb_poses (reconstructCallback tfv eng s) = rgb_poses s @ [PoseMatrix r t]) =
        (translation_distance s \<le> norm3 (vsub t (prev_pose_tran s)) \<or>
         rotational_distance s \<le> absolute_distance (prev_pose_rot s) r)) \<and>
     (norm3 (vsub t (prev_pose_tran s)) = translation_distance s \<longrightarrow>
        rgb_poses (reconstructCallback tfv eng s) = rgb_poses s @ [PoseMatrix r t] \<and>
        depth_images (reconstructCallback tfv eng s) = depth_images s @ [d] \<and>
        color_images (reconstructCallback tfv eng s) = color_images s @ [c]) \<and>
     (norm3 (vsub t (prev_pose_tran s)) < translation_distance s \<and>
      absolute_distance (prev_pose_rot s) r < rotational_distance s \<longrightarrow>
        reconstructCallback tfv eng s = s\<lparr>sensor_data := rest\<rparr>)"
proof (cases "gate s t r")
  case True
  then have "translation_distance s \<le> norm3 (vsub t (prev_pose_tran s)) \<or>
         rotational_distance s \<le> absolute_distance (prev_pose_rot s) r"
    by (simp add: gate_def)
  then show ?thesis
    using assms True tick_accept [of s d c tf rest tfv t r eng] by auto
next
  case False
  then have n: "\<not> (translation_distance s \<le> norm3 (vsub t (prev_pose_tran s)) \<or>
         rotational_distance s \<le> absolute_distance (prev_pose_rot s) r)"
    by (simp add: gate_def)
  have "reconstructCallback tfv eng s = s\<lparr>sensor_data := rest\<rparr>"
    using assms False by (rule tick_reject)
  then show ?thesis using n by auto
qed

lemma replicate_31: "replicate 31 x = x # replicate 30 x"
proof -
  have "(31::nat) = Suc 30" by simp
  then show ?thesis by (simp only: replicate_Suc)
qed

lemma near_distance: "absolute_distance (1, 0, 0, 0) (1, 0, 0, 0) = 0"
  by (simp add: absolute_distance_def)

theorem keyframe_gate_inclusive_witness:
  "30 < frame_count (feed far_tf 31 started) \<and>
   sensor_data (feed far_tf 31 started) = (0, 0, far_tf) # replicate 30 (0, 0, far_tf) \<and>
   id_tf far_tf = ((1, 0, 0), (1, 0, 0, 0)) \<and>
   norm3 (vsub (1, 0, 0) (prev_pose_tran (feed far_tf 31 started))) =
     translation_distance (feed far_tf 31 started) \<and>
   absolute_distance (prev_pose_rot (feed far_tf 31 started)) (1, 0, 0, 0) <
     rotational_distance (feed far_tf 31 started) \<and>
   rgb_poses (reconstructCallback id_tf test_engine (feed far_tf 31 started)) =
     [PoseMatrix (1, 0, 0, 0) (1, 0, 0)] \<and>
   30 < frame_count (feed near_tf 31 started) \<and>
   sensor_data (feed near_tf 31 started) = (0, 0, near_tf) # replicate 30 (0, 0, near_tf) \<and>
   id_tf near_tf = ((0, 0, 0), (1, 0, 0, 0)) \<and>
   norm3 (vsub (0, 0, 0) (prev_pose_tran (feed near_tf 31 started))) <
     translation_distance (feed near_tf 31 started) \<and>
   absolute_distance (prev_pose_rot (feed near_tf 31 started)) (1, 0, 0, 0) <
     rotational_distance (feed near_tf 31 started) \<and>
   reconstructCallback id_tf test_engine (feed near_tf 31 started) =
     (feed near_tf 31 started)\<lparr>sensor_data := replicate 30 (0, 0, near_tf)\<rparr>"
proof -
  have far: "30 < frame_count (feed far_tf 31 started)"
    "sensor_data (feed far_tf 31 started) = (0, 0, far_tf) # replicate 30 (0, 0, far_tf)"
    "id_tf far_tf = ((1, 0, 0), (1, 0, 0, 0))"
    "norm3 (vsub (1, 0, 0) (prev_pose_tran (feed far_tf 31 started))) =
       translation_distance (feed far_tf 31 started)"
    "absolute_distance (prev_pose_rot (feed far_tf 31 started)) (1, 0, 0, 0) <
       rotational_distance (feed far_tf 31 started)"
    by (simp_all add: feed_recording started_fields id_tf_def far_tf_def near_distance
        replicate_31)
  have near: "30 < frame_count (feed near_tf 31 started)"
    "sensor_data (feed near_tf 31 started) = (0, 0, near_tf) # replicate 30 (0, 0, near_tf)"
    "id_tf near_tf = ((0, 0, 0), (1, 0, 0, 0))"
    "norm3 (vsub (0, 0, 0) (prev_pose_tran (feed near_tf 31 started))) <
       translation_distance (feed near_tf 31 started)"
    "absolute_distance (prev_pose_rot (feed near_tf 31 started)) (1, 0, 0, 0) <
       rotational_distance (feed near_tf 31 started)"
    by (simp_all add: feed_recording started_fields id_tf_def near_tf_def near_distance
        replicate_31)
  have a: "rgb_poses (reconstructCallback id_tf test_engine (feed far_tf 31 started)) =
      rgb_poses (feed far_tf 31 started) @ [PoseMatrix (1, 0, 0, 0) (1, 0, 0)]"
    using far keyframe_gate_inclusive [of "feed far_tf 31 started" 0 0 far_tf
        "replicate 30 (0, 0, far_tf)" id_tf "(1, 0, 0)" "(1, 0, 0, 0)" test_engine]
    by blast
  have b: "reconstructCallback id_tf test_engine (feed near_tf 31 started) =
      (feed near_tf 31 started)\<lparr>sensor_data := replicate 30 (0, 0, near_tf)\<rparr>"
    using near keyframe_gate_inclusive [of "feed near_tf 31 started" 0 0 near_tf
        "replicate 30 (0, 0, near_tf)" id_tf "(0, 0, 0)" "(1, 0, 0, 0)" test_engine]
    by blast
  have "rgb_poses (feed far_tf 31 started) = []"
    by (simp add: feed_recording started_fields)
  then show ?thesis using far near a b by simp
qed

subsection \<open>Stop during warm-up\<close>

lemma env_step_stuck:
  assumes "\<not> record_flag s" and "frame_count s + int (length (in_flight s)) \<le> 30"
    and "sensor_data s \<noteq> []"
  shows "\<not> record_flag (env_step tfv eng e s) \<and>
         frame_count (env_step tfv eng e s) + int (length (in_flight (env_step tfv eng e s))) \<le> 30 \<and>
         sensor_data (env_step tfv eng e s) \<noteq> []"
proof (cases e)
  case (Camera dec lk)
  then show ?thesis using assms by (simp add: camera_idle)
next
  case (CameraArrive dec)
  then show ?thesis using assms by (simp add: camera_guard_def)
next
  case (CameraComplete k lk)
  then show ?thesis using assms
    by (auto simp add: camera_record_def split: option.splits)
next
  case Timer
  have "frame_count s \<le> 30" using assms(2) by simp
  then have "reconstructCallback tfv eng s = s" by (simp add: reconstructCallback_def)
  then show ?thesis using Timer assms by simp
next
  case (CameraInfo ci)
  then show ?thesis using assms by (simp add: cameraInfoCallback_def)
qed

lemma stop_wait_stuck:
  "\<not> record_flag s \<Longrightarrow> frame_count s + int (length (in_flight s)) \<le> 30 \<Longrightarrow>
   sensor_data s \<noteq> [] \<Longrightarrow> stop_wait tfv eng sched s = None"
proof (induction sched arbitrary: s)
  case Nil
  then show ?case by simp
next
  case (Cons e es)
  have "\<not> record_flag (env_step tfv eng e s) \<and>
      frame_count (env_step tfv eng e s) + int (length (in_flight (env_step tfv eng e s))) \<le> 30 \<and>
      sensor_data (env_step tfv eng e s) \<noteq> []"
    using Cons.prems by (rule env_step_stuck)
  then have "stop_wait tfv eng es (env_step tfv eng e s) = None" using Cons.IH by blast
  then show ?case using Cons.prems by simp
qed

text \<open>
  If the queue holds frames whose pose is the previous accepted pose, each tick rejects
  one, and the wait of Stop ends when as many ticks have run as there are frames.
\<close>

lemma drain_same_pose:
  fixes s :: "('img, vec3 \<times> quat, 'intr) state"
  shows "30 < frame_count s \<Longrightarrow> prev_pose_tran s = t \<Longrightarrow>
    prev_pose_rot s = (1, 0, 0, 0) \<Longrightarrow> 0 < translation_distance s \<Longrightarrow>
    0 < rotational_distance s \<Longrightarrow> integration_done s \<Longrightarrow>
    sensor_data s = replicate n (d, c, (t, (1, 0, 0, 0))) \<Longrightarrow>
    stop_wait id_tf eng (replicate n Timer) s = Some (s\<lparr>sensor_data := []\<rparr>)"
proof (induction n arbitrary: s)
  case 0
  then have "s\<lparr>sensor_data := []\<rparr> = s" by simp
  then show ?case using 0 by simp
next
  case (Suc n)
  have q: "sensor_data s = (d, c, (t, (1, 0, 0, 0))) # replicate n (d, c, (t, (1, 0, 0, 0)))"
    using Suc.prems by simp
  have i: "id_tf (t, (1, 0, 0, 0)) = (t, (1, 0, 0, 0))" by (simp add: id_tf_def)
  have "norm3 (vsub t t) = 0" by (cases t) simp
  then have g: "\<not> gate s t (1, 0, 0, 0)"
    using Suc.prems by (simp add: gate_def near_distance)
  have t: "reconstructCallback id_tf eng s =
      s\<lparr>sensor_data := replicate n (d, c, (t, (1, 0, 0, 0)))\<rparr>"
    using Suc.prems(1) q i g by (rule tick_reject)
  have "stop_wait id_tf eng (replicate n Timer)
          (s\<lparr>sensor_data := replicate n (d, c, (t, (1, 0, 0, 0)))\<rparr>) =
        Some (s\<lparr>sensor_data := replicate n (d, c, (t, (1, 0, 0, 0)))\<rparr>\<lparr>sensor_data := []\<rparr>)"
    using Suc.prems by (intro Suc.IH) simp_all
  then show ?case using q t by simp
qed

text \<open>
  C10, as the claim states it, fails when a camera callback is waiting for its transform at
  the time Stop clears the recording flag: with 30 frames seen and queued, the waiting
  callback enqueues and counts the 31st frame, the ticks empty the queue, and the wait of
  Stop ends.
\<close>

theorem stop_unblocked_by_waiting_callback:
  "sensor_data (env_step id_tf test_engine (CameraArrive (Some (0, 0))) (feed far_tf 30 started))
     \<noteq> [] \<and>
   frame_count (env_step id_tf test_engine (CameraArrive (Some (0, 0))) (feed far_tf 30 started))
     \<le> 30 \<and>
   stop_wait id_tf test_engine (CameraComplete 0 (Some far_tf) # replicate 31 Timer)
     ((env_step id_tf test_engine (CameraArrive (Some (0, 0))) (feed far_tf 30 started))
        \<lparr>record_flag := False\<rparr>) \<noteq> None"
proof -
  let ?x = "env_step id_tf test_engine (CameraArrive (Some (0, 0))) (feed far_tf 30 started)"
  let ?y = "env_step id_tf test_engine (CameraComplete 0 (Some far_tf))
              (?x\<lparr>record_flag := False\<rparr>)"
  let ?z = "reconstructCallback id_tf test_engine ?y"
  have x: "sensor_data ?x = replicate 30 (0, 0, far_tf)" "frame_count ?x = 30"
    "in_flight ?x = [(0, 0)]"
    by (simp_all add: camera_guard_def feed_recording started_fields)
  have y: "sensor_data ?y = (0, 0, far_tf) # replicate 30 (0, 0, far_tf)"
    "frame_count ?y = 31" "prev_pose_tran ?y = (0, 0, 0)" "prev_pose_rot ?y = (1, 0, 0, 0)"
    "translation_distance ?y = 1" "rotational_distance ?y = 1" "integration_done ?y"
    by (simp_all add: camera_record_def camera_guard_def feed_recording started_fields
        replicate_append_same)
  have i: "id_tf far_tf = ((1, 0, 0), (1, 0, 0, 0))" by (simp add: id_tf_def far_tf_def)
  have g: "gate ?y (1, 0, 0) (1, 0, 0, 0)" using y by (simp add: gate_def)
  have f: "30 < frame_count ?y" using y by simp
  have z: "prev_pose_tran ?z = (1, 0, 0)" "prev_pose_rot ?z = (1, 0, 0, 0)"
    using f y(1) i g
      tick_accept [of ?y 0 0 far_tf "replicate 30 (0, 0, far_tf)" id_tf "(1, 0, 0)"
        "(1, 0, 0, 0)" test_engine]
    by simp_all
  have z': "sensor_data ?z = replicate 30 (0, 0, ((1, 0, 0), (1, 0, 0, 0)))"
    using y(1,2) consumer_tick_pops [of ?y id_tf test_engine] by (simp add: far_tf_def)
  have "stop_wait id_tf test_engine (replicate 30 Timer) ?z = Some (?z\<lparr>sensor_data := []\<rparr>)"
    using z z' y by (intro drain_same_pose) (simp_all add: tick_keeps tick_done)
  then have "stop_wait id_tf test_engine (CameraComplete 0 (Some far_tf) # replicate 31 Timer)
      (?x\<lparr>record_flag := False\<rparr>) = Some (?z\<lparr>sensor_data := []\<rparr>)"
    using x y by (simp add: replicate_31)
  then show ?thesis using x by simp
qed

text \<open>
  C10, amended. When Stop is called with a non-empty capture queue while the frames seen and
  the camera callbacks waiting for their transform are together at most 30, everything that
  can run during its wait keeps the queue non-empty, that sum at most 30 and the recording
  flag cleared, so the wait is still going on after any schedule: Stop never returns.
\<close>

theorem stop_blocked_in_warmup:
  fixes s :: "('img, 'tf, 'intr) state"
  assumes "sensor_data s \<noteq> []" and "frame_count s + int (length (in_flight s)) \<le> 30"
  shows "stopReconstructionCallback tfv eng req sched during s = None \<and>
         sensor_data (fold (env_step tfv eng) sched (s\<lparr>record_flag := False\<rparr>)) \<noteq> [] \<and>
         frame_count (fold (env_step tfv eng) sched (s\<lparr>record_flag := False\<rparr>)) +
           int (length (in_flight (fold (env_step tfv eng) sched (s\<lparr>record_flag := False\<rparr>))))
           \<le> 30 \<and>
         \<not> record_flag (fold (env_step tfv eng) sched (s\<lparr>record_flag := False\<rparr>))"
proof -
  let ?s = "s\<lparr>record_flag := False\<rparr>"
  let ?P = "\<lambda>x :: ('img, 'tf, 'intr) state.
      \<not> record_flag x \<and> frame_count x + int (length (in_flight x)) \<le> 30 \<and>
      sensor_data x \<noteq> []"
  have p: "?P ?s" using assms by simp
  then have "stop_wait tfv eng sched ?s = None" using stop_wait_stuck by blast
  then have a: "stopReconstructionCallback tfv eng req sched during s = None"
    by (simp add: stopReconstructionCallback_def)
  have "?P (fold (env_step tfv eng) sched ?s)"
  proof (rule fold_env_invariant [where P = ?P])
    show "?P ?s" by (rule p)
  next
    fix x e
    assume "?P x"
    then show "?P (env_step tfv eng e x)" using env_step_stuck [of x tfv eng e] by blast
  qed
  then show ?thesis using a by simp
qed

theorem stop_blocked_in_warmup_witness:
  "sensor_data (env_step id_tf test_engine (CameraArrive (Some (9, 9))) (feed far_tf 3 started))
     \<noteq> [] \<and>
   frame_count (env_step id_tf test_engine (CameraArrive (Some (9, 9))) (feed far_tf 3 started)) +
     int (length (in_flight
       (env_step id_tf test_engine (CameraArrive (Some (9, 9))) (feed far_tf 3 started)))) \<le> 30 \<and>
   stopReconstructionCallback id_tf test_engine test_stop
     [Timer, CameraComplete 0 (Some far_tf), Camera (Some (1, 1)) (Some far_tf), Timer] []
     (env_step id_tf test_engine (CameraArrive (Some (9, 9))) (feed far_tf 3 started)) = None"
proof -
  let ?x = "env_step id_tf test_engine (CameraArrive (Some (9, 9))) (feed far_tf 3 started)"
  have x: "sensor_data ?x \<noteq> []" "frame_count ?x + int (length (in_flight ?x)) \<le> 30"
    by (simp_all add: camera_guard_def feed_recording started_fields)
  from stop_blocked_in_warmup [OF x, of id_tf test_engine test_stop
      "[Timer, CameraComplete 0 (Some far_tf), Camera (Some (1, 1)) (Some far_tf), Timer]" "[]"]
  show ?thesis using x by simp
qed

subsection \<open>Invariants of the executor\<close>

lemma stop_export_shape:
  "\<exists>buf vol. fst (stop_export eng req s) = s\<lparr>tsdf_integration_data := buf, tsdf_volume := vol\<rparr>"
proof (cases "tsdf_volume s")
  case None
  have "s = s\<lparr>tsdf_integration_data := tsdf_integration_data s, tsdf_volume := tsdf_volume s\<rparr>"
    by simp
  moreover have "fst (stop_export eng req s) = s"
    using None by (simp add: stop_export_def)
  ultimately show ?thesis by metis
next
  case (Some v)
  obtain rest vol1 ok where d:
    "(if \<not> live_integration s
      then integrate_deferred eng (depth_scale s) (depth_trunc s) (intrinsics s)
             (tsdf_integration_data s) v
      else (tsdf_integration_data s, v, True)) = (rest, vol1, ok)"
    by (metis prod_cases3)
  show ?thesis
  proof (cases ok)
    case False
    have "fst (stop_export eng req s) = s\<lparr>tsdf_integration_data := rest, tsdf_volume := Some vol1\<rparr>"
      unfolding stop_export_def using Some d False by (simp add: Let_def)
    then show ?thesis by blast
  next
    case True
    show ?thesis
    proof (cases "post_process eng req s (extract_triangle_mesh eng vol1)")
      case (Inl e)
      have "fst (stop_export eng req s) = s\<lparr>tsdf_integration_data := rest,
         tsdf_volume := Some (vol1\<lparr>calls := calls vol1 @ [ExtractTriangleMesh]\<rparr>)\<rparr>"
        unfolding stop_export_def using Some d True Inl by (simp add: Let_def)
      then show ?thesis by blast
    next
      case (Inr m)
      have "fst (stop_export eng req s) = s\<lparr>tsdf_integration_data := rest,
         tsdf_volume := Some (vol1\<lparr>calls := calls vol1 @ [ExtractTriangleMesh, ExtractPointCloud]\<rparr>)\<rparr>"
        unfolding stop_export_def using Some d True Inr by (simp add: Let_def)
      then show ?thesis by blast
    qed
  qed
qed

lemma stop_export_keeps:
  "frame_count (fst (stop_export eng req s)) = frame_count s"
  "record_flag (fst (stop_export eng req s)) = record_flag s"
  "paused (fst (stop_export eng req s)) = paused s"
  "sensor_data (fst (stop_export eng req s)) = sensor_data s"
  "prev_pose_rot (fst (stop_export eng req s)) = prev_pose_rot s"
  "prev_pose_tran (fst (stop_export eng req s)) = prev_pose_tran s"
  "rgb_poses (fst (stop_export eng req s)) = rgb_poses s"
  "live_integration (fst (stop_export eng req s)) = live_integration s"
  "reconstructed_frame_count (fst (stop_export eng req s)) = reconstructed_frame_count s"
  "processed_frame_count (fst (stop_export eng req s)) = processed_frame_count s"
  "in_flight (fst (stop_export eng req s)) = in_flight s"
  "integration_done (fst (stop_export eng req s)) = integration_done s"
proof -
  obtain buf vol where
    "fst (stop_export eng req s) = s\<lparr>tsdf_integration_data := buf, tsdf_volume := vol\<rparr>"
    using stop_export_shape by blast
  then show
  "frame_count (fst (stop_export eng req s)) = frame_count s"
  "record_flag (fst (stop_export eng req s)) = record_flag s"
  "paused (fst (stop_export eng req s)) = paused s"
  "sensor_data (fst (stop_export eng req s)) = sensor_data s"
  "prev_pose_rot (fst (stop_export eng req s)) = prev_pose_rot s"
  "prev_pose_tran (fst (stop_export eng req s)) = prev_pose_tran s"
  "rgb_poses (fst (stop_export eng req s)) = rgb_poses s"
  "live_integration (fst (stop_export eng req s)) = live_integration s"
  "reconstructed_frame_count (fst (stop_export eng req s)) = reconstructed_frame_count s"
  "processed_frame_count (fst (stop_export eng req s)) = processed_frame_count s"
  "in_flight (fst (stop_export eng req s)) = in_flight s"
  "integration_done (fst (stop_export eng req s)) = integration_done s"
    by simp_all
qed

lemma stop_wait_invariant:
  assumes "\<And>x e. P x \<Longrightarrow> P (env_step tfv eng e x)"
  shows "P s \<Longrightarrow> stop_wait tfv eng sched s = Some s' \<Longrightarrow> P s'"
proof (induction sched arbitrary: s)
  case Nil
  then show ?case by (simp split: if_splits)
next
  case (Cons e es)
  show ?case
  proof (cases "integration_done s \<and> sensor_data s = []")
    case True
    then show ?thesis using Cons.prems by simp
  next
    case False
    then have "stop_wait tfv eng es (env_step tfv eng e s) = Some s'"
      using Cons.prems by (simp split: if_splits)
    moreover have "P (env_step tfv eng e s)" using Cons.prems(1) by (rule assms)
    ultimately show ?thesis using Cons.IH by blast
  qed
qed

lemma stop_wait_done:
  "stop_wait tfv eng sched s = Some s' \<Longrightarrow> integration_done s' \<and> sensor_data s' = []"
  by (induction sched arbitrary: s) (simp_all split: if_splits)

lemma run_invariant:
  assumes env: "\<And>x e. P x \<Longrightarrow> P (env_step tfv eng e x)"
    and start: "\<And>x req. P x \<Longrightarrow> P (fst (startReconstructionCallback req x))"
    and pause: "\<And>x. P x \<Longrightarrow> P (fst (pauseReconstructionCallback x))"
    and resume: "\<And>x. P x \<Longrightarrow> P (fst (resumeReconstructionCallback x))"
    and flag: "\<And>x. P x \<Longrightarrow> P (x\<lparr>record_flag := False\<rparr>)"
    and export: "\<And>x req. P x \<Longrightarrow> P (fst (stop_export eng req x))"
  shows "P s \<Longrightarrow> run tfv eng evs s = Some s' \<Longrightarrow> P s'"
proof (induction evs arbitrary: s)
  case Nil
  then show ?case by simp
next
  case (Cons ev evs)
  from Cons.prems(2) obtain s1 where s1: "step tfv eng ev s = Some s1"
    and rest: "run tfv eng evs s1 = Some s'"
    by (auto split: option.splits)
  have "P s1"
  proof (cases ev)
    case (Env e)
    then show ?thesis using s1 env [OF Cons.prems(1)] by auto
  next
    case (Start req)
    then show ?thesis using s1 start [OF Cons.prems(1)] by auto
  next
    case Pause
    then show ?thesis using s1 pause [OF Cons.prems(1)] by auto
  next
    case Resume
    then show ?thesis using s1 resume [OF Cons.prems(1)] by auto
  next
    case (Stop req sched during)
    then obtain w where w: "stop_wait tfv eng sched (s\<lparr>record_flag := False\<rparr>) = Some w"
      and e: "s1 = fold (env_step tfv eng) during (fst (stop_export eng req w))"
      using s1 by (auto simp add: stopReconstructionCallback_def split: option.splits)
    have "P w"
      using env flag [OF Cons.prems(1)] w by (rule stop_wait_invariant)
    then have "P (fst (stop_export eng req w))" by (rule export)
    then have "P (fold (env_step tfv eng) during (fst (stop_export eng req w)))"
      using env fold_env_invariant [where P = P] by blast
    then show ?thesis using e by simp
  qed
  then show ?case using rest Cons.IH by blast
qed

subsection \<open>The previous pose\<close>

lemma start_fields:
  "prev_pose_rot (fst (startReconstructionCallback req s)) = (1, 0, 0, 0)"
  "prev_pose_tran (fst (startReconstructionCallback req s)) = (0, 0, 0)"
  "rgb_poses (fst (startReconstructionCallback req s)) = []"
  "sensor_data (fst (startReconstructionCallback req s)) = []"
  "tsdf_integration_data (fst (startReconstructionCallback req s)) = []"
  "frame_count (fst (startReconstructionCallback req s)) = 0"
  "processed_frame_count (fst (startReconstructionCallback req s)) = 0"
  "reconstructed_frame_count (fst (startReconstructionCallback req s)) = 0"
  "tsdf_volume (fst (startReconstructionCallback req s)) \<noteq> None"
  "record_flag (fst (startReconstructionCallback req s))"
  "\<not> paused (fst (startReconstructionCallback req s))"
  "live_integration (fst (startReconstructionCallback req s)) = req_live req"
  by (simp_all add: startReconstructionCallback_def Let_def)

lemma tick_prev_pose:
  assumes "30 < frame_count s" and "sensor_data s = (d, c, tf) # rest" and "tfv tf = (t, r)"
  shows "prev_pose_tran (reconstructCallback tfv eng s) = (if gate s t r then t else prev_pose_tran s) \<and>
         prev_pose_rot (reconstructCallback tfv eng s) = (if gate s t r then r else prev_pose_rot s) \<and>
         rgb_poses (reconstructCallback tfv eng s) =
           (if gate s t r then rgb_poses s @ [PoseMatrix r t] else rgb_poses s)"
proof (cases "gate s t r")
  case True
  then show ?thesis using assms tick_accept [of s d c tf rest tfv t r eng] by simp
next
  case False
  then show ?thesis using assms tick_reject [of s d c tf rest tfv t r eng] by simp
qed

lemma tick_baseline:
  assumes "rgb_poses s = [] \<longrightarrow> prev_pose_rot s = (1, 0, 0, 0) \<and> prev_pose_tran s = (0, 0, 0)"
  shows "rgb_poses (reconstructCallback tfv eng s) = [] \<longrightarrow>
         prev_pose_rot (reconstructCallback tfv eng s) = (1, 0, 0, 0) \<and>
         prev_pose_tran (reconstructCallback tfv eng s) = (0, 0, 0)"
proof (cases "frame_count s \<le> 30 \<or> sensor_data s = []")
  case True
  then have "reconstructCallback tfv eng s = s" by (simp add: reconstructCallback_def)
  then show ?thesis using assms by simp
next
  case False
  then obtain d c tf rest where q: "sensor_data s = (d, c, tf) # rest"
    by (cases "sensor_data s") auto
  obtain t r where p: "tfv tf = (t, r)" by (cases "tfv tf")
  have "30 < frame_count s" using False by simp
  then show ?thesis using tick_prev_pose [OF _ q, of tfv t r eng] p assms by simp
qed

lemma camera_keeps:
  "prev_pose_rot (cameraCallback dec lk s) = prev_pose_rot s"
  "prev_pose_tran (cameraCallback dec lk s) = prev_pose_tran s"
  "rgb_poses (cameraCallback dec lk s) = rgb_poses s"
  "tsdf_volume (cameraCallback dec lk s) = tsdf_volume s"
  "tsdf_integration_data (cameraCallback dec lk s) = tsdf_integration_data s"
  "live_integration (cameraCallback dec lk s) = live_integration s"
  "reconstructed_frame_count (cameraCallback dec lk s) = reconstructed_frame_count s"
  by (simp_all add: cameraCallback_eq split: option.splits prod.splits)

lemma pause_keeps:
  "prev_pose_rot (fst (pauseReconstructionCallback s)) = prev_pose_rot s"
  "prev_pose_tran (fst (pauseReconstructionCallback s)) = prev_pose_tran s"
  "rgb_poses (fst (pauseReconstructionCallback s)) = rgb_poses s"
  "frame_count (fst (pauseReconstructionCallback s)) = frame_count s"
  "tsdf_volume (fst (pauseReconstructionCallback s)) = tsdf_volume s"
  "tsdf_integration_data (fst (pauseReconstructionCallback s)) = tsdf_integration_data s"
  "live_integration (fst (pauseReconstructionCallback s)) = live_integration s"
  "reconstructed_frame_count (fst (pauseReconstructionCallback s)) = reconstructed_frame_count s"
  by (simp_all add: pauseReconstructionCallback_def)

lemma resume_keeps:
  "prev_pose_rot (fst (resumeReconstructionCallback s)) = prev_pose_rot s"
  "prev_pose_tran (fst (resumeReconstructionCallback s)) = prev_pose_tran s"
  "rgb_poses (fst (resumeReconstructionCallback s)) = rgb_poses s"
  "frame_count (fst (resumeReconstructionCallback s)) = frame_count s"
  "tsdf_volume (fst (resumeReconstructionCallback s)) = tsdf_volume s"
  "tsdf_integration_data (fst (resumeReconstructionCallback s)) = tsdf_integration_data s"
  "live_integration (fst (resumeReconstructionCallback s)) = live_integration s"
  "reconstructed_frame_count (fst (resumeReconstructionCallback s)) = reconstructed_frame_count s"
  by (simp_all add: resumeReconstructionCallback_def)

lemma env_step_baseline:
  assumes "rgb_poses s = [] \<longrightarrow> prev_pose_rot s = (1, 0, 0, 0) \<and> prev_pose_tran s = (0, 0, 0)"
  shows "rgb_poses (env_step tfv eng e s) = [] \<longrightarrow>
         prev_pose_rot (env_step tfv eng e s) = (1, 0, 0, 0) \<and>
         prev_pose_tran (env_step tfv eng e s) = (0, 0, 0)"
proof (cases "e = Timer")
  case True
  then show ?thesis using tick_baseline [OF assms] by simp
next
  case False
  then show ?thesis using assms by (simp add: env_keeps)
qed

lemma run_baseline:
  assumes "run tfv eng evs init_state = Some s"
  shows "rgb_poses s = [] \<longrightarrow> prev_pose_rot s = (1, 0, 0, 0) \<and> prev_pose_tran s = (0, 0, 0)"
proof -
  let ?P = "\<lambda>x. rgb_poses x = [] \<longrightarrow> prev_pose_rot x = (1, 0, 0, 0) \<and> prev_pose_tran x = (0, 0, 0)"
  have "?P s"
  proof (rule run_invariant [where P = ?P, OF _ _ _ _ _ _ _ assms])
    show "?P init_state" by (simp add: init_state_def)
  qed (simp_all add: env_step_baseline start_fields pause_keeps resume_keeps stop_export_keeps)
  then show ?thesis .
qed

text \<open>
  C4. Start sets the previous pose to the identity, and in every run of the node the
  previous pose is the identity as long as no frame of the session has been accepted, so the
  first frame is compared with the identity. A tick that pops a frame sets the previous pose
  to the frame's pose when the gate accepts it and leaves it alone otherwise; no other
  callback changes it.
\<close>

theorem previous_pose_state:
  "prev_pose_rot (fst (startReconstructionCallback req s0)) = (1, 0, 0, 0) \<and>
   prev_pose_tran (fst (startReconstructionCallback req s0)) = (0, 0, 0) \<and>
   (run tfv eng evs init_state = Some s1 \<and> rgb_poses s1 = [] \<longrightarrow>
      prev_pose_rot s1 = (1, 0, 0, 0) \<and> prev_pose_tran s1 = (0, 0, 0)) \<and>
   (30 < frame_count s \<and> sensor_data s = (d, c, tf) # rest \<and> tfv tf = (t, r) \<longrightarrow>
      prev_pose_tran (reconstructCallback tfv eng s) = (if gate s t r then t else prev_pose_tran s) \<and>
      prev_pose_rot (reconstructCallback tfv eng s) = (if gate s t r then r else prev_pose_rot s)) \<and>
   (frame_count s \<le> 30 \<or> sensor_data s = [] \<longrightarrow>
      prev_pose_tran (reconstructCallback tfv eng s) = prev_pose_tran s \<and>
      prev_pose_rot (reconstructCallback tfv eng s) = prev_pose_rot s) \<and>
   prev_pose_tran (cameraCallback dec lk s) = prev_pose_tran s \<and>
   prev_pose_rot (cameraCallback dec lk s) = prev_pose_rot s \<and>
   prev_pose_tran (fst (pauseReconstructionCallback s)) = prev_pose_tran s \<and>
   prev_pose_rot (fst (pauseReconstructionCallback s)) = prev_pose_rot s \<and>
   prev_pose_tran (fst (resumeReconstructionCallback s)) = prev_pose_tran s \<and>
   prev_pose_rot (fst (resumeReconstructionCallback s)) = prev_pose_rot s \<and>
   prev_pose_tran (fst (stop_export eng sreq s)) = prev_pose_tran s \<and>
   prev_pose_rot (fst (stop_export eng sreq s)) = prev_pose_rot s"
proof -
  have a: "run tfv eng evs init_state = Some s1 \<and> rgb_poses s1 = [] \<longrightarrow>
      prev_pose_rot s1 = (1, 0, 0, 0) \<and> prev_pose_tran s1 = (0, 0, 0)"
    using run_baseline [of tfv eng evs s1] by blast
  have b: "30 < frame_count s \<and> sensor_data s = (d, c, tf) # rest \<and> tfv tf = (t, r) \<longrightarrow>
      prev_pose_tran (reconstructCallback tfv eng s) = (if gate s t r then t else prev_pose_tran s) \<and>
      prev_pose_rot (reconstructCallback tfv eng s) = (if gate s t r then r else prev_pose_rot s)"
    using tick_prev_pose [of s d c tf rest tfv t r eng] by blast
  have c: "frame_count s \<le> 30 \<or> sensor_data s = [] \<longrightarrow>
      prev_pose_tran (reconstructCallback tfv eng s) = prev_pose_tran s \<and>
      prev_pose_rot (reconstructCallback tfv eng s) = prev_pose_rot s"
    by (simp add: reconstructCallback_def)
  show ?thesis
    using a b c
    by (simp only: start_fields camera_keeps pause_keeps resume_keeps stop_export_keeps simp_thms)
qed

subsection \<open>Pause and the frame counter\<close>







lemma gate_far: "gate (feed far_tf 31 started) (1, 0, 0) (1, 0, 0, 0)"
  by (simp add: gate_def feed_recording started_fields)

lemma run_started: "run id_tf test_engine [Start test_start] init_state = Some started"
  by (simp add: started_def)

lemma warm_fields:
  "30 < frame_count (feed far_tf 31 started)"
  "sensor_data (feed far_tf 31 started) = (0, 0, far_tf) # replicate 30 (0, 0, far_tf)"
  "id_tf far_tf = ((1, 0, 0), (1, 0, 0, 0))"
  by (simp_all add: feed_recording started_fields replicate_31 id_tf_def far_tf_def)

theorem previous_pose_state_witness:
  "30 < frame_count (feed far_tf 31 started) \<and>
   sensor_data (feed far_tf 31 started) = (0, 0, far_tf) # replicate 30 (0, 0, far_tf) \<and>
   id_tf far_tf = ((1, 0, 0), (1, 0, 0, 0)) \<and>
   gate (feed far_tf 31 started) (1, 0, 0) (1, 0, 0, 0) \<and>
   prev_pose_tran (reconstructCallback id_tf test_engine (feed far_tf 31 started)) = (1, 0, 0) \<and>
   run id_tf test_engine [Start test_start] init_state = Some started \<and>
   rgb_poses started = [] \<and>
   prev_pose_rot started = (1, 0, 0, 0) \<and> prev_pose_tran started = (0, 0, 0)"
proof -
  have "30 < frame_count (feed far_tf 31 started) \<and>
      sensor_data (feed far_tf 31 started) = (0, 0, far_tf) # replicate 30 (0, 0, far_tf) \<and>
      id_tf far_tf = ((1, 0, 0), (1, 0, 0, 0)) \<longrightarrow>
      prev_pose_tran (reconstructCallback id_tf test_engine (feed far_tf 31 started)) =
        (if gate (feed far_tf 31 started) (1, 0, 0) (1, 0, 0, 0) then (1, 0, 0)
         else prev_pose_tran (feed far_tf 31 started)) \<and>
      prev_pose_rot (reconstructCallback id_tf test_engine (feed far_tf 31 started)) =
        (if gate (feed far_tf 31 started) (1, 0, 0) (1, 0, 0, 0) then (1, 0, 0, 0)
         else prev_pose_rot (feed far_tf 31 started))"
    using previous_pose_state [where s = "feed far_tf 31 started" and d = 0 and c = 0
      and tf = far_tf and rest = "replicate 30 (0, 0, far_tf)" and tfv = id_tf
      and t = "(1, 0, 0)" and r = "(1, 0, 0, 0)" and eng = test_engine]
    by blast
  then have "prev_pose_tran (reconstructCallback id_tf test_engine (feed far_tf 31 started)) =
      (1, 0, 0)"
    using warm_fields gate_far by simp
  then show ?thesis
    using warm_fields gate_far run_started started_fields by simp
qed


subsection \<open>Deferred integration\<close>

lemma integrate_deferred_ok:
  "integrate_deferred eng sc tr intr buf vol = (rest, vol1, True) \<Longrightarrow>
   rest = [] \<and>
   vol1 = vol\<lparr>calls := calls vol @
            map (\<lambda>(depth_img, rgb_img, pose).
                   Integrate (RGBDImage rgb_img depth_img sc tr False) intr (Inv pose)) buf\<rparr>"
proof (induction buf arbitrary: vol)
  case Nil
  then show ?case by simp
next
  case (Cons data buf)
  obtain d c p where data: "data = (d, c, p)" by (cases data)
  let ?c = "Integrate (RGBDImage c d sc tr False) intr (Inv p)"
  have ok: "integrate_ok eng vol ?c"
    using Cons.prems data by (simp add: Let_def split: if_splits)
  then have "integrate_deferred eng sc tr intr buf (vol\<lparr>calls := calls vol @ [?c]\<rparr>) =
      (rest, vol1, True)"
    using Cons.prems data by (simp add: Let_def)
  from Cons.IH [OF this] show ?case using data by simp
qed


lemma stop_export_returns:
  assumes v: "tsdf_volume w = Some vol" and r: "stop_export eng req w = (s', Inr out)"
  shows "success (fst out) \<and>
         tsdf_integration_data s' = (if live_integration w then tsdf_integration_data w else []) \<and>
         (\<not> live_integration w \<longrightarrow>
            tsdf_volume s' = Some (vol\<lparr>calls := calls vol @
              map (\<lambda>(depth_img, rgb_img, pose).
                     Integrate (RGBDImage rgb_img depth_img (depth_scale w) (depth_trunc w) False)
                       (intrinsics w) (Inv pose)) (tsdf_integration_data w) @
              [ExtractTriangleMesh, ExtractPointCloud]\<rparr>))"
proof -
  obtain rest vol1 ok where d:
    "(if \<not> live_integration w
      then integrate_deferred eng (depth_scale w) (depth_trunc w) (intrinsics w)
             (tsdf_integration_data w) vol
      else (tsdf_integration_data w, vol, True)) = (rest, vol1, ok)"
    by (metis prod_cases3)
  have ok: ok
  proof (rule ccontr)
    assume "\<not> ok"
    then have "snd (stop_export eng req w) = Inl EngineError"
      unfolding stop_export_def using v d by (simp add: Let_def)
    then show False using r by simp
  qed
  obtain final where f: "post_process eng req w (extract_triangle_mesh eng vol1) = Inr final"
  proof (cases "post_process eng req w (extract_triangle_mesh eng vol1)")
    case (Inl e)
    then have "snd (stop_export eng req w) = Inl e"
      unfolding stop_export_def using v d ok by (simp add: Let_def)
    then show ?thesis using r by simp
  next
    case (Inr m)
    then show ?thesis using that by blast
  qed
  have e: "stop_export eng req w =
      (w\<lparr>tsdf_integration_data := rest,
         tsdf_volume := Some (vol1\<lparr>calls := calls vol1 @ [ExtractTriangleMesh, ExtractPointCloud]\<rparr>)\<rparr>,
       Inr (default_response\<lparr>success := True,
              message := ''Mesh Saved to '' @ mesh_filepath req @
                '' and point cloud saved to '' @ point_cloud_filepath (mesh_filepath req)\<rparr>,
            Some final))"
    unfolding stop_export_def using v d ok f by (simp add: Let_def)
  show ?thesis
  proof (cases "live_integration w")
    case True
    then have "rest = tsdf_integration_data w" using d by simp
    then show ?thesis using e r True by auto
  next
    case False
    then have "integrate_deferred eng (depth_scale w) (depth_trunc w) (intrinsics w)
             (tsdf_integration_data w) vol = (rest, vol1, True)"
      using d ok by simp
    from integrate_deferred_ok [OF this] show ?thesis using e r False by auto
  qed
qed








subsection \<open>The concrete session, stopped\<close>

lemma tick_deferred_accept:
  assumes "\<not> live_integration s" and "30 < frame_count s"
    and "sensor_data s = (d, c, tf) # rest" and "tfv tf = (t, r)" and "gate s t r"
  shows "reconstructCallback tfv eng s =
     s\<lparr>sensor_data := rest, prev_pose_tran := t, prev_pose_rot := r,
       depth_images := depth_images s @ [d], color_images := color_images s @ [c],
       rgb_poses := rgb_poses s @ [PoseMatrix r t],
       tsdf_integration_data := tsdf_integration_data s @ [(d, c, PoseMatrix r t)],
       processed_frame_count := processed_frame_count s + 1\<rparr>"
  using assms
  by (simp add: reconstructCallback_def Let_def split: prod.splits option.splits)

lemma tick_in_flight:
  "reconstructCallback tfv eng (s\<lparr>in_flight := x\<rparr>) =
     (reconstructCallback tfv eng s)\<lparr>in_flight := x\<rparr>"
  by (simp add: reconstructCallback_def gate_def Let_def split: prod.splits option.splits)

lemma stop_wait_ticks_in_flight:
  "stop_wait tfv eng (replicate n Timer) (s\<lparr>in_flight := x\<rparr>) =
     map_option (\<lambda>w. w\<lparr>in_flight := x\<rparr>) (stop_wait tfv eng (replicate n Timer) s)"
proof (induction n arbitrary: s)
  case 0
  then show ?case by simp
next
  case (Suc n)
  then show ?case by (simp add: tick_in_flight)
qed

lemma queued_fields:
  "sensor_data queued = (1, 2, far_tf) # (3, 4, near_tf) # replicate 29 (5, 6, near_tf)"
  "frame_count queued = 31" "record_flag queued" "\<not> paused queued" "in_flight queued = []"
  "prev_pose_tran queued = (0, 0, 0)" "prev_pose_rot queued = (1, 0, 0, 0)"
  "translation_distance queued = 1" "rotational_distance queued = 1"
  "integration_done queued" "\<not> live_integration queued"
  "tsdf_volume queued = Some \<lparr>voxel_length = 1 / 100, sdf_trunc = 4 / 100, calls = []\<rparr>"
  "tsdf_integration_data queued = []" "intrinsics queued = Some ()"
  by (simp_all add: queued_def started_fields)

lemma two_admitted_fields:
  "sensor_data two_admitted = replicate 29 (5, 6, near_tf)"
  "frame_count two_admitted = 31" "\<not> record_flag two_admitted" "in_flight two_admitted = []"
  "prev_pose_tran two_admitted = (0, 0, 0)" "prev_pose_rot two_admitted = (1, 0, 0, 0)"
  "translation_distance two_admitted = 1" "rotational_distance two_admitted = 1"
  "integration_done two_admitted" "\<not> live_integration two_admitted"
  "tsdf_volume two_admitted =
     Some \<lparr>voxel_length = 1 / 100, sdf_trunc = 4 / 100, calls = []\<rparr>"
  "tsdf_integration_data two_admitted =
     [(1, 2, PoseMatrix (1, 0, 0, 0) (1, 0, 0)), (3, 4, PoseMatrix (1, 0, 0, 0) (0, 0, 0))]"
  "processed_frame_count two_admitted = 2" "reconstructed_frame_count two_admitted = 0"
  "depth_scale two_admitted = 1000" "depth_trunc two_admitted = 3"
  "intrinsics two_admitted = Some ()" "\<not> crop_mesh two_admitted"
proof -
  let ?q = "queued\<lparr>record_flag := False\<rparr>"
  let ?a = "reconstructCallback id_tf test_engine ?q"
  have i: "id_tf far_tf = ((1, 0, 0), (1, 0, 0, 0))" "id_tf near_tf = ((0, 0, 0), (1, 0, 0, 0))"
    by (simp_all add: id_tf_def far_tf_def near_tf_def)
  have g1: "gate ?q (1, 0, 0) (1, 0, 0, 0)" by (simp add: gate_def queued_fields)
  have q: "\<not> live_integration ?q" "30 < frame_count ?q"
    "sensor_data ?q = (1, 2, far_tf) # (3, 4, near_tf) # replicate 29 (5, 6, near_tf)"
    by (simp_all add: queued_fields)
  have a: "?a =
     ?q\<lparr>sensor_data := (3, 4, near_tf) # replicate 29 (5, 6, near_tf),
       prev_pose_tran := (1, 0, 0), prev_pose_rot := (1, 0, 0, 0),
       depth_images := depth_images ?q @ [1], color_images := color_images ?q @ [2],
       rgb_poses := rgb_poses ?q @ [PoseMatrix (1, 0, 0, 0) (1, 0, 0)],
       tsdf_integration_data := tsdf_integration_data ?q @
         [(1, 2, PoseMatrix (1, 0, 0, 0) (1, 0, 0))],
       processed_frame_count := processed_frame_count ?q + 1\<rparr>"
    using q i(1) g1 by (rule tick_deferred_accept)
  have a': "\<not> live_integration ?a" "30 < frame_count ?a"
    "sensor_data ?a = (3, 4, near_tf) # replicate 29 (5, 6, near_tf)"
    by (simp_all add: a queued_fields)
  have g2: "gate ?a (0, 0, 0) (1, 0, 0, 0)" by (simp add: gate_def a queued_fields)
  have b: "two_admitted =
     ?a\<lparr>sensor_data := replicate 29 (5, 6, near_tf),
       prev_pose_tran := (0, 0, 0), prev_pose_rot := (1, 0, 0, 0),
       depth_images := depth_images ?a @ [3], color_images := color_images ?a @ [4],
       rgb_poses := rgb_poses ?a @ [PoseMatrix (1, 0, 0, 0) (0, 0, 0)],
       tsdf_integration_data := tsdf_integration_data ?a @
         [(3, 4, PoseMatrix (1, 0, 0, 0) (0, 0, 0))],
       processed_frame_count := processed_frame_count ?a + 1\<rparr>"
    unfolding two_admitted_def using a' i(2) g2 by (rule tick_deferred_accept)
  have m: "processed_frame_count queued = 0" "reconstructed_frame_count queued = 0"
    "depth_scale queued = 1000" "depth_trunc queued = 3" "\<not> crop_mesh queued"
    by (simp_all add: queued_def started_fields)
  show
  "sensor_data two_admitted = replicate 29 (5, 6, near_tf)"
  "frame_count two_admitted = 31" "\<not> record_flag two_admitted" "in_flight two_admitted = []"
  "prev_pose_tran two_admitted = (0, 0, 0)" "prev_pose_rot two_admitted = (1, 0, 0, 0)"
  "translation_distance two_admitted = 1" "rotational_distance two_admitted = 1"
  "integration_done two_admitted" "\<not> live_integration two_admitted"
  "tsdf_volume two_admitted =
     Some \<lparr>voxel_length = 1 / 100, sdf_trunc = 4 / 100, calls = []\<rparr>"
  "tsdf_integration_data two_admitted =
     [(1, 2, PoseMatrix (1, 0, 0, 0) (1, 0, 0)), (3, 4, PoseMatrix (1, 0, 0, 0) (0, 0, 0))]"
  "processed_frame_count two_admitted = 2" "reconstructed_frame_count two_admitted = 0"
  "depth_scale two_admitted = 1000" "depth_trunc two_admitted = 3"
  "intrinsics two_admitted = Some ()" "\<not> crop_mesh two_admitted"
    by (simp_all add: b a queued_fields m)
qed

lemma replicate_31_two: "replicate 31 x = x # x # replicate 29 x"
proof -
  have "(31::nat) = Suc (Suc 29)" by simp
  then show ?thesis by (simp only: replicate_Suc)
qed

lemma stop_wait_session:
  "stop_wait id_tf test_engine (replicate 31 Timer) (queued\<lparr>record_flag := False\<rparr>) =
     Some drained_state"
proof -
  have "stop_wait id_tf test_engine (replicate 29 Timer) two_admitted =
      Some (two_admitted\<lparr>sensor_data := []\<rparr>)"
    by (rule drain_same_pose [where t = "(0, 0, 0)" and d = 5 and c = 6])
      (simp_all add: two_admitted_fields near_tf_def)
  moreover have "sensor_data (reconstructCallback id_tf test_engine
      (queued\<lparr>record_flag := False\<rparr>)) \<noteq> []"
    using consumer_tick_pops [of "queued\<lparr>record_flag := False\<rparr>" id_tf test_engine]
    by (simp add: queued_fields)
  ultimately show ?thesis
    by (simp add: replicate_31_two queued_fields drained_state_def two_admitted_def)
qed

lemma export_session:
  "stop_export test_engine test_stop (drained_state\<lparr>in_flight := x\<rparr>) =
     (final_state\<lparr>in_flight := x\<rparr>, Inr final_output)"
  unfolding stop_export_def
  by (simp add: drained_state_def two_admitted_fields Let_def test_engine_def test_stop_def
      post_process_def remove_small_clusters_def remove_triangles_by_mask_def
      remove_unreferenced_vertices_def final_state_def final_volume_def far_call_def
      near_call_def final_output_def default_response_def point_cloud_filepath_def)

lemma final_fields:
  "sensor_data final_state = []" "tsdf_integration_data final_state = []"
  "processed_frame_count final_state = 2" "reconstructed_frame_count final_state = 0"
  "tsdf_volume final_state = Some final_volume" "in_flight final_state = []"
  "in_flight drained_state = []"
  "tsdf_integration_data drained_state =
     [(1, 2, PoseMatrix (1, 0, 0, 0) (1, 0, 0)), (3, 4, PoseMatrix (1, 0, 0, 0) (0, 0, 0))]"
  "intrinsics drained_state = Some ()"
  by (simp_all add: final_state_def drained_state_def two_admitted_fields)

lemma stop_session:
  "stopReconstructionCallback id_tf test_engine test_stop (replicate 31 Timer) [] queued =
     Some (final_state, Inr final_output)"
proof -
  have "drained_state\<lparr>in_flight := []\<rparr> = drained_state"
    "final_state\<lparr>in_flight := []\<rparr> = final_state"
    by (simp_all add: final_fields)
  then have "stop_export test_engine test_stop drained_state = (final_state, Inr final_output)"
    using export_session [of "[]"] by simp
  then show ?thesis
    by (simp add: stopReconstructionCallback_def stop_wait_session)
qed

lemma run_cameras:
  "run id_tf test_engine (replicate n (Env (Camera dec lk)) @ evs) s =
   run id_tf test_engine evs ((cameraCallback dec lk ^^ n) s)"
proof (induction n arbitrary: s)
  case 0
  then show ?case by simp
next
  case (Suc n)
  then show ?case by (simp add: funpow_swap1)
qed

lemma run_session: "run id_tf test_engine session_events init_state = Some queued"
proof -
  let ?a = "cameraCallback (Some (3, 4)) (Some near_tf)
      (cameraCallback (Some (1, 2)) (Some far_tf) (cameraInfoCallback () started))"
  have a: "record_flag ?a" "\<not> paused ?a"
    by (simp_all add: cameraCallback_eq cameraInfoCallback_def started_fields)
  have "run id_tf test_engine session_events init_state =
      run id_tf test_engine (replicate 29 (Env (Camera (Some (5, 6)) (Some near_tf))) @ []) ?a"
    by (simp add: session_events_def started_def)
  also have "\<dots> = Some ((cameraCallback (Some (5, 6)) (Some near_tf) ^^ 29) ?a)"
    by (simp only: run_cameras run.simps)
  finally have r: "run id_tf test_engine session_events init_state =
      Some ((cameraCallback (Some (5, 6)) (Some near_tf) ^^ 29) ?a)" .
  have "(cameraCallback (Some (5, 6)) (Some near_tf) ^^ 29) ?a =
      ?a\<lparr>sensor_data := sensor_data ?a @ replicate 29 (5, 6, near_tf),
        frame_count := frame_count ?a + int 29\<rparr>"
    using a by (rule frames_recording)
  also have "\<dots> = queued"
    by (simp add: queued_def cameraCallback_eq cameraInfoCallback_def started_fields)
  finally show ?thesis using r by simp
qed


subsection \<open>What Stop leaves behind\<close>

lemma tick_buffer_inv:
  fixes s :: "('img, 'tf, 'intr) state"
  assumes "live_integration s \<longrightarrow> tsdf_integration_data s = [] \<and> tsdf_volume s \<noteq> None"
  shows "live_integration (reconstructCallback tfv eng s) \<longrightarrow>
         tsdf_integration_data (reconstructCallback tfv eng s) = [] \<and>
         tsdf_volume (reconstructCallback tfv eng s) \<noteq> None"
  using assms
  by (auto simp add: reconstructCallback_def Let_def split: prod.splits option.splits)

lemma tick_volume:
  "tsdf_volume s \<noteq> None \<Longrightarrow> tsdf_volume (reconstructCallback tfv eng s) \<noteq> None"
  by (auto simp add: reconstructCallback_def Let_def split: prod.splits option.splits)

lemma env_step_volume:
  "tsdf_volume s \<noteq> None \<Longrightarrow> tsdf_volume (env_step tfv eng e s) \<noteq> None"
  by (cases "e = Timer") (simp_all add: tick_volume env_keeps)

lemma stop_export_volume:
  "tsdf_volume s \<noteq> None \<Longrightarrow> tsdf_volume (fst (stop_export eng req s)) \<noteq> None"
  by (auto simp add: stop_export_def Let_def split: prod.splits sum.splits)

lemma stop_export_live:
  "live_integration s \<Longrightarrow>
   tsdf_integration_data (fst (stop_export eng req s)) = tsdf_integration_data s"
  by (auto simp add: stop_export_def Let_def split: option.splits sum.splits)

lemma env_step_session_inv: "session_inv s \<Longrightarrow> session_inv (env_step tfv eng e s)"
proof (cases "e = Timer")
  case True
  assume "session_inv s"
  then show ?thesis using True tick_buffer_inv [of s tfv eng]
    by (simp add: session_inv_def tick_keeps split: if_splits)
next
  case False
  assume "session_inv s"
  then show ?thesis using False by (simp add: session_inv_def env_keeps)
qed

lemma run_session_inv:
  assumes "run tfv eng evs init_state = Some s"
  shows "session_inv s"
proof (rule run_invariant [where P = session_inv, OF _ _ _ _ _ _ _ assms])
  show "session_inv init_state" by (simp add: session_inv_def init_state_def)
next
  fix x :: "('a, 'b, 'c) state" and e
  assume "session_inv x"
  then show "session_inv (env_step tfv eng e x)" by (rule env_step_session_inv)
next
  fix x :: "('a, 'b, 'c) state" and req
  show "session_inv (fst (startReconstructionCallback req x))"
    by (simp add: session_inv_def start_fields)
next
  fix x :: "('a, 'b, 'c) state"
  assume "session_inv x"
  then show "session_inv (fst (pauseReconstructionCallback x))"
    by (simp add: session_inv_def pause_keeps)
next
  fix x :: "('a, 'b, 'c) state"
  assume "session_inv x"
  then show "session_inv (fst (resumeReconstructionCallback x))"
    by (simp add: session_inv_def resume_keeps)
next
  fix x :: "('a, 'b, 'c) state"
  assume "session_inv x"
  then show "session_inv (x\<lparr>record_flag := False\<rparr>)"
    by (simp add: session_inv_def)
next
  fix x :: "('a, 'b, 'c) state" and req
  assume "session_inv x"
  then show "session_inv (fst (stop_export eng req x))"
    using stop_export_volume [of x eng req] stop_export_live [of x eng req]
    by (simp add: session_inv_def stop_export_keeps split: if_splits)
qed

lemma step_volume:
  assumes "step tfv eng ev s = Some s1" and "tsdf_volume s \<noteq> None \<or> (\<exists>r. ev = Start r)"
  shows "tsdf_volume s1 \<noteq> None"
proof (cases ev)
  case (Env e)
  then show ?thesis using assms env_step_volume [of s tfv eng e] by auto
next
  case (Start req)
  then have "s1 = fst (startReconstructionCallback req s)" using assms(1) by simp
  then show ?thesis using start_fields(9) [of req s] by simp
next
  case Pause
  then show ?thesis using assms by (auto simp add: pause_keeps)
next
  case Resume
  then show ?thesis using assms by (auto simp add: resume_keeps)
next
  case (Stop req sched during)
  then have v: "tsdf_volume s \<noteq> None" using assms(2) by simp
  obtain w where w: "stop_wait tfv eng sched (s\<lparr>record_flag := False\<rparr>) = Some w"
    and e: "s1 = fold (env_step tfv eng) during (fst (stop_export eng req w))"
    using assms(1) Stop by (auto simp add: stopReconstructionCallback_def split: option.splits)
  have "tsdf_volume w \<noteq> None"
  proof (rule stop_wait_invariant [where P = "\<lambda>x. tsdf_volume x \<noteq> None", OF _ _ w])
    show "tsdf_volume (s\<lparr>record_flag := False\<rparr>) \<noteq> None" using v by simp
  qed (rule env_step_volume)
  then have "tsdf_volume (fst (stop_export eng req w)) \<noteq> None" by (rule stop_export_volume)
  then have "tsdf_volume (fold (env_step tfv eng) during (fst (stop_export eng req w))) \<noteq> None"
    using env_step_volume fold_env_invariant [where P = "\<lambda>x. tsdf_volume x \<noteq> None"]
    by blast
  then show ?thesis using e by simp
qed

lemma run_volume:
  "run tfv eng evs s = Some s' \<Longrightarrow> tsdf_volume s \<noteq> None \<or> (\<exists>r. Start r \<in> set evs) \<Longrightarrow>
   tsdf_volume s' \<noteq> None"
proof (induction evs arbitrary: s)
  case Nil
  then show ?case by simp
next
  case (Cons ev evs)
  from Cons.prems(1) obtain s1 where s1: "step tfv eng ev s = Some s1"
    and rest: "run tfv eng evs s1 = Some s'"
    by (auto split: option.splits)
  show ?case
  proof (cases "tsdf_volume s \<noteq> None \<or> (\<exists>r. ev = Start r)")
    case True
    with s1 have "tsdf_volume s1 \<noteq> None" by (rule step_volume)
    then show ?thesis using Cons.IH [OF rest] by blast
  next
    case False
    then have "\<exists>r. Start r \<in> set evs" using Cons.prems(2) by auto
    then show ?thesis using Cons.IH [OF rest] by blast
  qed
qed

text \<open>
  After the wait of Stop, with no camera callback waiting for its transform, nothing that
  runs beside the services changes the queue, the buffer or the counters.
\<close>

lemma env_step_quiet:
  assumes "\<not> record_flag s" and "in_flight s = []" and "sensor_data s = []"
  shows "\<not> record_flag (env_step tfv eng e s) \<and> in_flight (env_step tfv eng e s) = [] \<and>
         sensor_data (env_step tfv eng e s) = [] \<and>
         tsdf_integration_data (env_step tfv eng e s) = tsdf_integration_data s \<and>
         processed_frame_count (env_step tfv eng e s) = processed_frame_count s \<and>
         reconstructed_frame_count (env_step tfv eng e s) = reconstructed_frame_count s"
proof (cases e)
  case (Camera dec lk)
  then show ?thesis using assms by (simp add: camera_idle)
next
  case (CameraArrive dec)
  then show ?thesis using assms by (simp add: camera_guard_def)
next
  case (CameraComplete k lk)
  then show ?thesis using assms by simp
next
  case Timer
  have "reconstructCallback tfv eng s = s" using assms(3) by (simp add: reconstructCallback_def)
  then show ?thesis using Timer assms by simp
next
  case (CameraInfo ci)
  then show ?thesis using assms by (simp add: cameraInfoCallback_def)
qed

text \<open>
  C1, as the claim states it, fails in two ways. In the session of two admitted frames Stop
  returns with \<^verbatim>\<open>processed_frame_count\<close> at 2 and \<^verbatim>\<open>reconstructed_frame_count\<close>
  at 0. And when a camera callback is waiting for its transform while the same Stop waits
  and exports, and gets it before Stop returns, the capture queue holds its frame at the
  return.
\<close>

theorem stop_counters_counterexample:
  "run id_tf test_engine session_events init_state = Some queued \<and>
   stopReconstructionCallback id_tf test_engine test_stop (replicate 31 Timer) [] queued =
     Some (final_state, Inr final_output) \<and>
   processed_frame_count final_state = 2 \<and>
   reconstructed_frame_count final_state = 0 \<and>
   reconstructed_frame_count final_state \<noteq> processed_frame_count final_state \<and>
   stopReconstructionCallback id_tf test_engine test_stop (replicate 31 Timer)
       [CameraComplete 0 (Some far_tf)]
       (env_step id_tf test_engine (CameraArrive (Some (7, 8))) queued) \<noteq> None \<and>
   snd (the (stopReconstructionCallback id_tf test_engine test_stop (replicate 31 Timer)
       [CameraComplete 0 (Some far_tf)]
       (env_step id_tf test_engine (CameraArrive (Some (7, 8))) queued))) = Inr final_output \<and>
   sensor_data (fst (the (stopReconstructionCallback id_tf test_engine test_stop
       (replicate 31 Timer) [CameraComplete 0 (Some far_tf)]
       (env_step id_tf test_engine (CameraArrive (Some (7, 8))) queued)))) = [(7, 8, far_tf)]"
proof -
  have q: "env_step id_tf test_engine (CameraArrive (Some (7, 8))) queued =
      queued\<lparr>in_flight := [(7, 8)]\<rparr>"
    by (simp add: camera_guard_def queued_fields)
  have sw: "(queued\<lparr>in_flight := [(7, 8)]\<rparr>)\<lparr>record_flag := False\<rparr> =
      (queued\<lparr>record_flag := False\<rparr>)\<lparr>in_flight := [(7, 8)]\<rparr>"
    by simp
  have w: "stop_wait id_tf test_engine (replicate 31 Timer)
      ((queued\<lparr>in_flight := [(7, 8)]\<rparr>)\<lparr>record_flag := False\<rparr>) =
      Some (drained_state\<lparr>in_flight := [(7, 8)]\<rparr>)"
    by (simp only: sw stop_wait_ticks_in_flight stop_wait_session option.map)
  have r: "stopReconstructionCallback id_tf test_engine test_stop (replicate 31 Timer)
      [CameraComplete 0 (Some far_tf)] (queued\<lparr>in_flight := [(7, 8)]\<rparr>) =
      Some (env_step id_tf test_engine (CameraComplete 0 (Some far_tf))
              (final_state\<lparr>in_flight := [(7, 8)]\<rparr>), Inr final_output)"
    unfolding stopReconstructionCallback_def
    by (simp only: w export_session option.case fst_conv snd_conv fold_simps id_apply
        comp_apply)
  have "sensor_data (env_step id_tf test_engine (CameraComplete 0 (Some far_tf))
      (final_state\<lparr>in_flight := [(7, 8)]\<rparr>)) = [(7, 8, far_tf)]"
    by (simp add: camera_record_def final_fields)
  then show ?thesis
    unfolding q using run_session stop_session by (simp add: final_fields r)
qed

text \<open>
  C1, amended. In every run of the node with at least one Start, when Stop returns a
  response and no camera callback was waiting for its transform when the wait of Stop
  ended, the capture queue and the deferred buffer are empty at the return and the
  response reports success; \<^verbatim>\<open>reconstructed_frame_count\<close> is 0, because no callback
  adds to it, so it equals \<^verbatim>\<open>processed_frame_count\<close> exactly when that counter is 0.
\<close>

theorem stop_returns_drained:
  fixes s :: "('img, 'tf, 'intr) state"
  assumes "run tfv eng evs init_state = Some s" and "Start r0 \<in> set evs"
    and "stop_wait tfv eng sched (s\<lparr>record_flag := False\<rparr>) = Some w"
    and "in_flight w = []"
    and "stopReconstructionCallback tfv eng req sched during s = Some (s', Inr out)"
  shows "sensor_data s' = [] \<and> tsdf_integration_data s' = [] \<and>
         reconstructed_frame_count s' = 0 \<and>
         (reconstructed_frame_count s' = processed_frame_count s') =
           (processed_frame_count s' = 0) \<and>
         success (fst out)"
proof -
  let ?x = "fst (stop_export eng req w)"
  have e: "stop_export eng req w = (?x, Inr out)"
    and s': "s' = fold (env_step tfv eng) during ?x"
    using assms(3,5) by (auto simp add: stopReconstructionCallback_def prod_eq_iff)
  have "session_inv s" using assms(1) by (rule run_session_inv)
  then have "session_inv (s\<lparr>record_flag := False\<rparr>)" by (simp add: session_inv_def)
  then have i: "session_inv w"
    using assms(3) env_step_session_inv stop_wait_invariant [where P = session_inv] by blast
  have f: "\<not> record_flag w"
  proof (rule stop_wait_invariant [where P = "\<lambda>x. \<not> record_flag x", OF _ _ assms(3)])
    show "\<not> record_flag (s\<lparr>record_flag := False\<rparr>)" by simp
  qed (simp add: env_step_flags)
  have "tsdf_volume s \<noteq> None" using assms(1,2) run_volume by blast
  then have "tsdf_volume (s\<lparr>record_flag := False\<rparr>) \<noteq> None" by simp
  then have "tsdf_volume w \<noteq> None"
    using assms(3) env_step_volume stop_wait_invariant [where P = "\<lambda>x. tsdf_volume x \<noteq> None"]
    by blast
  then obtain vol where v: "tsdf_volume w = Some vol" by blast
  have q: "sensor_data w = []" using assms(3) stop_wait_done by blast
  have k: "sensor_data ?x = []" "reconstructed_frame_count ?x = 0" "\<not> record_flag ?x"
    "in_flight ?x = []"
    using i q f assms(4) by (simp_all add: stop_export_keeps session_inv_def)
  have b: "tsdf_integration_data ?x = []" "success (fst out)"
    using stop_export_returns [OF v e] i by (simp_all add: session_inv_def split: if_splits)
  let ?P = "\<lambda>x :: ('img, 'tf, 'intr) state. \<not> record_flag x \<and> in_flight x = [] \<and>
      sensor_data x = [] \<and> tsdf_integration_data x = [] \<and> reconstructed_frame_count x = 0"
  have "?P s'"
    unfolding s'
  proof (rule fold_env_invariant [where P = ?P])
    show "?P ?x" using k b by simp
  next
    fix x e
    assume "?P x"
    then show "?P (env_step tfv eng e x)" using env_step_quiet [of x tfv eng e] by simp
  qed
  then show ?thesis using b(2) by auto
qed

theorem stop_returns_drained_witness:
  "run id_tf test_engine session_events init_state = Some queued \<and>
   Start test_start \<in> set session_events \<and>
   stop_wait id_tf test_engine (replicate 31 Timer) (queued\<lparr>record_flag := False\<rparr>) =
     Some drained_state \<and>
   in_flight drained_state = [] \<and>
   stopReconstructionCallback id_tf test_engine test_stop (replicate 31 Timer) [] queued =
     Some (final_state, Inr final_output) \<and>
   sensor_data final_state = [] \<and> tsdf_integration_data final_state = [] \<and>
   reconstructed_frame_count final_state = 0 \<and> processed_frame_count final_state = 2 \<and>
   success (fst final_output)"
proof -
  have a: "Start test_start \<in> set session_events" by (simp add: session_events_def)
  have b: "in_flight drained_state = []" by (simp add: final_fields)
  from stop_returns_drained [OF run_session a stop_wait_session b stop_session] show ?thesis
    using run_session a stop_wait_session b stop_session by (simp add: final_fields)
qed

subsection \<open>Normal filters\<close>

lemma mask_filter:
  "map fst (filter (\<lambda>(t, b). \<not> b) (zip xs (map f xs))) = filter (\<lambda>t. \<not> f t) xs"
  by (induction xs) simp_all

lemma filterNormals_eq:
  "filterNormals eng m direction angle =
     Inr (m\<lparr>triangles :=
            filter (\<lambda>t. cos angle \<le> dot (triangle_normal eng (vertices m) t) direction)
              (triangles m)\<rparr>)"
proof -
  have "map (\<lambda>d. d < cos angle)
          (map (\<lambda>n. dot n direction) (map (triangle_normal eng (vertices m)) (triangles m))) =
        map (\<lambda>t. dot (triangle_normal eng (vertices m) t) direction < cos angle) (triangles m)"
    by simp
  then show ?thesis
    by (simp add: filterNormals_def remove_triangles_by_mask_def Let_def mask_filter not_less
        del: map_map)
qed

text \<open>
  C8. A normal filter keeps exactly the triangles whose normal has a dot product with the
  filter direction of at least the cosine of the filter angle. For any mesh and any two
  filters A and B, applying A then B gives the same mesh as applying B then A, and the
  triangles it removes are those that A removes on its own together with those that B
  removes on its own (whether or not the two removal sets overlap).
\<close>

theorem normal_filters_commute:
  "\<exists>mA mB mAB.
     filterNormals eng m dA aA = Inr mA \<and> filterNormals eng m dB aB = Inr mB \<and>
     filterNormals eng mA dB aB = Inr mAB \<and> filterNormals eng mB dA aA = Inr mAB \<and>
     triangles mA =
       filter (\<lambda>t. cos aA \<le> dot (triangle_normal eng (vertices m) t) dA) (triangles m) \<and>
     triangles mB =
       filter (\<lambda>t. cos aB \<le> dot (triangle_normal eng (vertices m) t) dB) (triangles m) \<and>
     set (triangles m) - set (triangles mAB) =
       (set (triangles m) - set (triangles mA)) \<union> (set (triangles m) - set (triangles mB)) \<and>
     vertices mAB = vertices m"
proof -
  let ?kA = "\<lambda>t. cos aA \<le> dot (triangle_normal eng (vertices m) t) dA"
  let ?kB = "\<lambda>t. cos aB \<le> dot (triangle_normal eng (vertices m) t) dB"
  let ?mA = "m\<lparr>triangles := filter ?kA (triangles m)\<rparr>"
  let ?mB = "m\<lparr>triangles := filter ?kB (triangles m)\<rparr>"
  let ?mAB = "m\<lparr>triangles := filter (\<lambda>t. ?kA t \<and> ?kB t) (triangles m)\<rparr>"
  have a: "filterNormals eng m dA aA = Inr ?mA" by (rule filterNormals_eq)
  have b: "filterNormals eng m dB aB = Inr ?mB" by (rule filterNormals_eq)
  have c: "filter (\<lambda>t. ?kB t \<and> ?kA t) (triangles m) =
      filter (\<lambda>t. ?kA t \<and> ?kB t) (triangles m)"
    by (rule filter_cong) auto
  have ab: "filterNormals eng ?mA dB aB = Inr ?mAB"
    by (simp add: filterNormals_eq)
  have ba: "filterNormals eng ?mB dA aA = Inr ?mAB"
    by (simp add: filterNormals_eq c)
  have s: "set (triangles m) - set (triangles ?mAB) =
       (set (triangles m) - set (triangles ?mA)) \<union> (set (triangles m) - set (triangles ?mB))"
    by auto
  show ?thesis using a b ab ba s by (intro exI [of _ ?mA] exI [of _ ?mB] exI [of _ ?mAB]) simp
qed

lemma corner_filters:
  "filterNormals normal_engine corner (-1, 0, 0) (pi / 2) =
     Inr (corner\<lparr>triangles := [(0, 1, 2), (2, 3, 0)]\<rparr>)"
  "filterNormals normal_engine corner (0, -1, 0) (pi / 2) =
     Inr (corner\<lparr>triangles := [(0, 1, 2), (1, 2, 3)]\<rparr>)"
  "filterNormals normal_engine (corner\<lparr>triangles := [(0, 1, 2), (2, 3, 0)]\<rparr>) (0, -1, 0) (pi / 2) =
     Inr (corner\<lparr>triangles := [(0, 1, 2)]\<rparr>)"
  "filterNormals normal_engine (corner\<lparr>triangles := [(0, 1, 2), (1, 2, 3)]\<rparr>) (-1, 0, 0) (pi / 2) =
     Inr (corner\<lparr>triangles := [(0, 1, 2)]\<rparr>)"
  by (simp_all add: filterNormals_eq normal_engine_def side_normal_def corner_def)

theorem normal_filters_commute_witness:
  "filterNormals normal_engine corner (-1, 0, 0) (pi / 2) =
     Inr (corner\<lparr>triangles := [(0, 1, 2), (2, 3, 0)]\<rparr>) \<and>
   filterNormals normal_engine corner (0, -1, 0) (pi / 2) =
     Inr (corner\<lparr>triangles := [(0, 1, 2), (1, 2, 3)]\<rparr>) \<and>
   filterNormals normal_engine (corner\<lparr>triangles := [(0, 1, 2), (2, 3, 0)]\<rparr>) (0, -1, 0) (pi / 2) =
     filterNormals normal_engine (corner\<lparr>triangles := [(0, 1, 2), (1, 2, 3)]\<rparr>) (-1, 0, 0) (pi / 2)"
  using normal_filters_commute [of normal_engine corner "(-1, 0, 0)" "pi / 2" "(0, -1, 0)" "pi / 2"]
    corner_filters
  by auto

subsection \<open>Connected components and unreferenced vertices\<close>

lemma filter_upt_nth:
  assumes "j < n" and "P j"
  shows "length (filter P [0..<j]) < length (filter P [0..<n]) \<and>
         filter P [0..<n] ! length (filter P [0..<j]) = j"
proof -
  have "[0..<n] = [0..<j] @ j # [Suc j..<n]"
    using assms(1) upt_add_eq_append [of 0 j "n - j"] by (simp add: upt_conv_Cons)
  then have "filter P [0..<n] = filter P [0..<j] @ j # filter P [Suc j..<n]"
    using assms(2) by simp
  then show ?thesis by simp
qed

lemma filter_upt_index:
  assumes "i < length (filter P [0..<n])"
  shows "length (filter P [0..<filter P [0..<n] ! i]) = i"
proof -
  let ?xs = "filter P [0..<n]"
  let ?j = "?xs ! i"
  have "?j \<in> set ?xs" using assms by (rule nth_mem)
  then have "?j \<in> {x \<in> set [0..<n]. P x}" by (simp only: set_filter)
  then have j: "?j < n" "P ?j" by simp_all
  from j filter_upt_nth [of ?j n P]
  have k: "length (filter P [0..<?j]) < length ?xs" "?xs ! length (filter P [0..<?j]) = ?j"
    by simp_all
  have "distinct ?xs" by simp
  then show ?thesis using k assms nth_eq_iff_index_eq by blast
qed

lemma referenced_corner:
  "(a, b, c) \<in> set (triangles m) \<Longrightarrow> referenced m a \<and> referenced m b \<and> referenced m c"
  by (auto simp add: referenced_def)

lemma unreferenced_gone:
  assumes "i < length (vertices (remove_unreferenced_vertices m))"
  shows "referenced (remove_unreferenced_vertices m) i"
proof -
  let ?n = "length (vertices m)"
  let ?xs = "filter (referenced m) [0..<?n]"
  have i: "i < length ?xs" using assms by (simp add: remove_unreferenced_vertices_def)
  then have "?xs ! i \<in> set ?xs" by (rule nth_mem)
  then have "?xs ! i \<in> {x \<in> set [0..<?n]. referenced m x}" by (simp only: set_filter)
  then have "referenced m (?xs ! i)" by simp
  then obtain a b c where t: "(a, b, c) \<in> set (triangles m)"
    and j: "?xs ! i = a \<or> ?xs ! i = b \<or> ?xs ! i = c"
    by (auto simp add: referenced_def)
  have n: "index_old_to_new m (?xs ! i) = i"
    using filter_upt_index [OF i] by (simp add: index_old_to_new_def)
  have "(index_old_to_new m a, index_old_to_new m b, index_old_to_new m c)
          \<in> set (triangles (remove_unreferenced_vertices m))"
    using t by (force simp add: remove_unreferenced_vertices_def)
  moreover have "i = index_old_to_new m a \<or> i = index_old_to_new m b \<or> i = index_old_to_new m c"
    using j n by metis
  ultimately show ?thesis unfolding referenced_def by blast
qed

lemma new_vertex:
  assumes "a < length (vertices m)" and "referenced m a"
  shows "vertices (remove_unreferenced_vertices m) ! index_old_to_new m a = vertices m ! a"
  using assms filter_upt_nth [of a "length (vertices m)" "referenced m"]
  by (simp add: remove_unreferenced_vertices_def index_old_to_new_def)

lemma points_kept:
  assumes "in_range m"
  shows "map (triangle_points (remove_unreferenced_vertices m))
           (triangles (remove_unreferenced_vertices m)) =
         map (triangle_points m) (triangles m)"
proof -
  have "triangle_points (remove_unreferenced_vertices m)
          (index_old_to_new m a, index_old_to_new m b, index_old_to_new m c) =
        triangle_points m (a, b, c)"
    if "(a, b, c) \<in> set (triangles m)" for a b c
  proof -
    have "a < length (vertices m)" "b < length (vertices m)" "c < length (vertices m)"
      using assms that by (auto simp add: in_range_def list_all_iff)
    then show ?thesis
      using referenced_corner [OF that] by (simp add: triangle_points_def new_vertex)
  qed
  then show ?thesis
    by (auto simp add: remove_unreferenced_vertices_def)
qed

lemma zip_mask:
  "map fst (filter (\<lambda>(t, b). \<not> b) (zip ts (map f cl))) =
   map fst (filter (\<lambda>(t, c). \<not> f c) (zip ts cl))"
proof (induction ts arbitrary: cl)
  case Nil
  then show ?case by simp
next
  case (Cons t ts)
  then show ?case by (cases cl) simp_all
qed

text \<open>
  C9. Let the clustering label every triangle with a cluster and report for each cluster
  that occurs the number of triangles with its label. Then the connected-component step
  keeps exactly the triangles whose cluster has at least \<open>min_num_faces\<close> triangles
  (a cluster of exactly that size stays), and removes the vertices no triangle refers to:
  every vertex left is a corner of a kept triangle, and the kept triangles have the corner
  points they had.
\<close>

theorem small_clusters_removed:
  assumes "cluster_connected_triangles eng m = (cl, ns, ar)"
    and "length cl = length (triangles m)"
    and "list_all (\<lambda>c. c < length ns \<and> ns ! c = count_list cl c) cl"
    and "in_range m"
  shows "\<exists>r kept.
     remove_small_clusters eng k m = Inr r \<and>
     kept = map fst (filter (\<lambda>(t, c). k \<le> int (count_list cl c)) (zip (triangles m) cl)) \<and>
     r = remove_unreferenced_vertices (m\<lparr>triangles := kept\<rparr>) \<and>
     list_all (referenced r) [0..<length (vertices r)] \<and>
     map (triangle_points r) (triangles r) = map (triangle_points m) kept"
proof -
  let ?kept = "map fst (filter (\<lambda>(t, c). k \<le> int (count_list cl c)) (zip (triangles m) cl))"
  let ?m' = "m\<lparr>triangles := ?kept\<rparr>"
  let ?r = "remove_unreferenced_vertices ?m'"
  have c: "\<forall>c \<in> set cl. c < length ns \<and> ns ! c = count_list cl c"
    using assms(3) by (simp add: list_all_iff)
  then have ix: "\<not> (\<exists>c \<in> set cl. c \<ge> length ns)" by (auto simp add: not_le)
  have "filter (\<lambda>(t, c). \<not> int (ns ! c) < k) (zip (triangles m) cl) =
        filter (\<lambda>(t, c). k \<le> int (count_list cl c)) (zip (triangles m) cl)"
  proof (rule filter_cong [OF refl])
    fix x
    assume "x \<in> set (zip (triangles m) cl)"
    then have "(fst x, snd x) \<in> set (zip (triangles m) cl)" by simp
    then have "snd x \<in> set cl" by (rule set_zip_rightD)
    then have "ns ! snd x = count_list cl (snd x)" using c by blast
    then show "(case x of (t, c) \<Rightarrow> \<not> int (ns ! c) < k) =
               (case x of (t, c) \<Rightarrow> k \<le> int (count_list cl c))"
      by (cases x) auto
  qed
  then have "remove_triangles_by_mask m (map (\<lambda>c. int (ns ! c) < k) cl) = Inr ?m'"
    using assms(2) by (simp add: remove_triangles_by_mask_def zip_mask)
  then have a: "remove_small_clusters eng k m = Inr ?r"
    using assms(1) ix by (simp add: remove_small_clusters_def Let_def)
  have "t \<in> set (triangles m)" if "t \<in> set ?kept" for t
  proof -
    from that obtain c where "(t, c) \<in> set (zip (triangles m) cl)" by auto
    then show ?thesis by (rule set_zip_leftD)
  qed
  then have "in_range ?m'"
    using assms(4) unfolding in_range_def list_all_iff by simp
  then have p: "map (triangle_points ?r) (triangles ?r) = map (triangle_points ?m') ?kept"
    using points_kept [of ?m'] by simp
  have "triangle_points ?m' = triangle_points m"
    by (rule ext) (simp add: triangle_points_def)
  then have p': "map (triangle_points ?r) (triangles ?r) = map (triangle_points m) ?kept"
    using p by simp
  have u: "list_all (referenced ?r) [0..<length (vertices ?r)]"
    using unreferenced_gone [of _ ?m'] by (simp add: list_all_iff)
  show ?thesis
    by (intro exI [of _ ?r] exI [of _ ?kept] conjI a refl p' u)
qed

lemma count_list_replicate: "count_list (replicate n x) y = (if x = y then n else 0)"
  by (induction n) auto

lemma filter_zip_replicate:
  "length ts = n \<Longrightarrow>
   map fst (filter (\<lambda>(t, c). P c) (zip ts (replicate n c0))) = (if P c0 then ts else [])"
proof (induction ts arbitrary: n)
  case Nil
  then show ?case by simp
next
  case (Cons t ts)
  then obtain k where "n = Suc k" "length ts = k" by (cases n) auto
  then show ?case using Cons.IH [of k] by simp
qed

lemma strips_clusters:
  "cluster_connected_triangles strip_engine two_strips =
     (replicate 5 0 @ replicate 50 1, [5, 50], [0, 0])"
  by (simp add: strip_engine_def)

lemma strips_count:
  "list_all (\<lambda>c. c < length [5, 50 :: nat] \<and>
              [5, 50] ! c = count_list (replicate 5 0 @ replicate 50 (1 :: nat)) c)
     (replicate 5 0 @ replicate 50 1)"
  by (auto simp add: list_all_iff count_list_replicate)

lemma strips_in_range: "in_range two_strips"
  by (auto simp add: in_range_def two_strips_def list_all_iff strip_def)

lemma strips_kept:
  "map fst (filter (\<lambda>(t, c). 10 \<le> int (count_list (replicate 5 0 @ replicate 50 (1 :: nat)) c))
     (zip (triangles two_strips) (replicate 5 0 @ replicate 50 1))) = map strip [7..<57]"
proof -
  let ?P = "\<lambda>c. 10 \<le> int (count_list (replicate 5 0 @ replicate 50 (1 :: nat)) c)"
  have z: "zip (triangles two_strips) (replicate 5 0 @ replicate 50 (1 :: nat)) =
      zip (map strip [0..<5]) (replicate 5 0) @ zip (map strip [7..<57]) (replicate 50 1)"
    by (simp add: two_strips_def)
  have a: "map fst (filter (\<lambda>(t, c). ?P c) (zip (map strip [0..<5]) (replicate 5 0))) = []"
    using filter_zip_replicate [of "map strip [0..<5]" 5 ?P 0]
    by (simp add: count_list_replicate)
  have b: "map fst (filter (\<lambda>(t, c). ?P c) (zip (map strip [7..<57]) (replicate 50 1))) =
      map strip [7..<57]"
    using filter_zip_replicate [of "map strip [7..<57]" 50 ?P 1]
    by (simp add: count_list_replicate)
  show ?thesis using a b by (simp only: z filter_append map_append) simp
qed

theorem small_clusters_removed_witness:
  "cluster_connected_triangles strip_engine two_strips =
     (replicate 5 0 @ replicate 50 1, [5, 50], [0, 0]) \<and>
   length (replicate 5 0 @ replicate 50 (1 :: nat)) = length (triangles two_strips) \<and>
   in_range two_strips \<and>
   remove_small_clusters strip_engine 10 two_strips =
     Inr (remove_unreferenced_vertices (two_strips\<lparr>triangles := map strip [7..<57]\<rparr>))"
proof -
  have l: "length (replicate 5 0 @ replicate 50 (1 :: nat)) = length (triangles two_strips)"
    by (simp add: two_strips_def)
  from small_clusters_removed [OF strips_clusters l strips_count strips_in_range, of 10]
  have "remove_small_clusters strip_engine 10 two_strips =
     Inr (remove_unreferenced_vertices (two_strips\<lparr>triangles := map strip [7..<57]\<rparr>))"
    by (simp only: strips_kept) blast
  then show ?thesis using strips_clusters l strips_in_range by simp
qed

end
